theory Spec2Isabelle
  imports Complex_Main "HOL-Library.Sublist" "HOL-Library.AList"
begin

section \<open>JavaScript values used by the services\<close>

text \<open>
  Strings are \<open>string\<close>. A text is held as the bytes of its UTF-8 encoding, the form
  in which the log files and the database hold it: a character of ASCII is one byte, any
  other character is the two to four bytes of its encoding. A JavaScript string with an
  unpaired surrogate has no such encoding (written to a file it becomes U+FFFD) and is
  outside the model. A value that may be \<open>null\<close> or \<open>undefined\<close> is an \<open>option\<close>.
  A string is falsy when it is absent or empty.
\<close>

definition falsy_str :: "string option \<Rightarrow> bool" where
  "falsy_str v = (case v of None \<Rightarrow> True | Some s \<Rightarrow> s = [])"

text \<open>\<open>String.prototype.includes\<close> and \<open>String.prototype.startsWith\<close>.\<close>

fun includes_str :: "string \<Rightarrow> string \<Rightarrow> bool" where
  "includes_str [] sub = (sub = [])"
| "includes_str (c # s) sub = (prefix sub (c # s) \<or> includes_str s sub)"

definition startsWith :: "string \<Rightarrow> string \<Rightarrow> bool" where
  "startsWith s p = prefix p s"







section \<open>Container-engine client: CPU percent\<close>






section \<open>Log lifecycle manager: the log directory tree\<close>

text \<open>
  The tree under \<open>logPath\<close>: one directory per container (\<open>container-<id>\<close>), each
  holding files by name, in \<open>readdir\<close> order. A file has its content and its
  modification time (milliseconds since the epoch). Faults of the disk itself
  (permissions, a full disk) are outside the model; a missing file or directory is in it.
\<close>

record log_file =
  f_content :: string
  f_mtime :: int

type_synonym directory = "(string \<times> log_file) list"
type_synonym log_fs = "(string \<times> directory) list"

definition lookup_file :: "log_fs \<Rightarrow> string \<Rightarrow> string \<Rightarrow> log_file option" where
  "lookup_file fs d n = (case map_of fs d of None \<Rightarrow> None | Some dir \<Rightarrow> map_of dir n)"

definition unlink :: "string \<Rightarrow> directory \<Rightarrow> directory" where
  "unlink n dir = filter (\<lambda>e. fst e \<noteq> n) dir"

subsection \<open>\<open>cleanupOldLogs\<close>\<close>

text \<open>
  The inner loop of \<open>cleanupOldLogs\<close> over the names \<open>readdir\<close> returned for one
  container directory: \<open>stat\<close> each, and \<open>unlink\<close> it when its modification time
  precedes the cutoff and its name includes \<open>.log.\<close>. A \<open>stat\<close> on a name that is
  gone throws; the \<open>catch\<close> around the directory ends the work on that directory and
  keeps the count so far.
\<close>

fun cleanup_files :: "int \<Rightarrow> string list \<Rightarrow> directory \<times> nat \<Rightarrow> directory \<times> nat" where
  "cleanup_files cutoff [] acc = acc"
| "cleanup_files cutoff (file # files) (dir, cleaned) =
     (case map_of dir file of
        None \<Rightarrow> (dir, cleaned)
      | Some st \<Rightarrow>
          if f_mtime st < cutoff \<and> includes_str file ''.log.''
          then cleanup_files cutoff files (unlink file dir, Suc cleaned)
          else cleanup_files cutoff files (dir, cleaned))"

text \<open>The outer loop: only directories whose name starts with \<open>container-\<close>.\<close>

fun cleanup_dirs :: "int \<Rightarrow> log_fs \<Rightarrow> nat \<Rightarrow> log_fs \<times> nat" where
  "cleanup_dirs cutoff [] cleaned = ([], cleaned)"
| "cleanup_dirs cutoff ((containerDir, dir) # rest) cleaned =
     (if \<not> startsWith containerDir ''container-''
      then (let (rest', n) = cleanup_dirs cutoff rest cleaned
            in ((containerDir, dir) # rest', n))
      else (let (dir', c) = cleanup_files cutoff (map fst dir) (dir, cleaned);
                (rest', n) = cleanup_dirs cutoff rest c
            in ((containerDir, dir') # rest', n)))"

text \<open>
  \<open>cutoffDate.setDate(cutoffDate.getDate() - retentionDays)\<close>: the cutoff is the instant
  \<open>retentionDays\<close> calendar days before now at the same time of day, in the local time
  of the host. What instant that is depends on the host's time zone and its clock changes;
  it is given by \<open>daysBefore\<close>. Returns the tree after the deletions and \<open>cleaned\<close>.
\<close>

definition cleanupOldLogs ::
  "(int \<Rightarrow> int \<Rightarrow> int) \<Rightarrow> int \<Rightarrow> int \<Rightarrow> log_fs \<Rightarrow> log_fs \<times> nat" where
  "cleanupOldLogs daysBefore retentionDays now fs =
     cleanup_dirs (daysBefore now retentionDays) fs 0"

text \<open>On a host whose local time is UTC every calendar day has 86400000 ms.\<close>

definition daysBefore_utc :: "int \<Rightarrow> int \<Rightarrow> int" where
  "daysBefore_utc now days = now - days * 86400000"

section \<open>The persisted store\<close>

text \<open>
  A thrown JavaScript error: a plain \<open>Error\<close> with its message, or a file-system error
  whose \<open>code\<close> is \<open>ENOENT\<close> (with the path it names).
\<close>

datatype exn = Error string | ENOENT string

fun message :: "exn \<Rightarrow> string" where
  "message (Error m) = m"
| "message (ENOENT p) = ''ENOENT: no such file or directory, open '' @ p"

text \<open>
  A row of table \<open>containers\<close>, which is also the fields of an object of class
  \<open>Container\<close>. \<open>id\<close> is the primary key, \<open>docker_id\<close> is nullable and \<open>UNIQUE\<close>.
  The JSON columns and the two timestamps play no part in what follows and are left out.
\<close>

record container =
  c_id :: string
  c_name :: string
  c_docker_id :: "string option"
  c_image :: string
  c_status :: string
  c_folder_path :: string
  c_startup_script :: "string option"
  c_created_by :: nat

text \<open>A row of \<open>container_logs\<close> and the column of \<open>container_settings\<close> that is read.\<close>

record db_log =
  l_container_id :: string
  l_content :: string
  l_type :: string

record settings =
  s_auto_restart :: bool

text \<open>
  The database: the rows of \<open>containers\<close> in the order \<open>ORDER BY created_at DESC\<close>
  lists them (newest first), the rows of \<open>container_logs\<close> in insertion order, and
  \<open>container_settings\<close> keyed by \<open>container_id\<close>.
\<close>

record database =
  containers :: "container list"
  container_logs :: "db_log list"
  container_settings :: "(string \<times> settings) list"

text \<open>The constructor of \<open>Container\<close>: \<open>this.status = data.status || 'stopped'\<close>.\<close>

definition new_Container :: "container \<Rightarrow> container" where
  "new_Container data = data\<lparr>c_status := (if c_status data = [] then ''stopped'' else c_status data)\<rparr>"

definition findById :: "database \<Rightarrow> string \<Rightarrow> container option" where
  "findById db i = map_option new_Container (find (\<lambda>r. c_id r = i) (containers db))"

text \<open>
  \<open>Container.list({limit, status})\<close>, first page: the rows with that status (when a
  truthy one is given), at most \<open>limit\<close> of them.
\<close>

definition list_containers :: "nat \<Rightarrow> string option \<Rightarrow> database \<Rightarrow> container list" where
  "list_containers limit status db =
     map new_Container
       (take limit (case status of None \<Rightarrow> containers db
                    | Some st \<Rightarrow>
                        if st = [] then containers db
                        else filter (\<lambda>r. c_status r = st) (containers db)))"

definition row_exists :: "database \<Rightarrow> string \<Rightarrow> bool" where
  "row_exists db i = list_ex (\<lambda>r. c_id r = i) (containers db)"

text \<open>
  \<open>updateStatus\<close>: \<open>UPDATE containers SET status = ? WHERE id = ?\<close>; the object's own
  field follows when a row changed.
\<close>

definition updateStatus :: "container \<Rightarrow> string \<Rightarrow> database \<Rightarrow> container \<times> database" where
  "updateStatus this status db =
     (if row_exists db (c_id this) then this\<lparr>c_status := status\<rparr> else this,
      db\<lparr>containers :=
           map (\<lambda>r. if c_id r = c_id this then r\<lparr>c_status := status\<rparr> else r) (containers db)\<rparr>)"

text \<open>
  \<open>updateDockerId\<close>: the same for \<open>docker_id\<close>. The column is \<open>UNIQUE\<close>: when the
  row exists and another row already holds that value the statement fails and the
  method rethrows.
\<close>

definition updateDockerId ::
  "container \<Rightarrow> string \<Rightarrow> database \<Rightarrow> (exn + container) \<times> database" where
  "updateDockerId this dockerId db =
     (if row_exists db (c_id this) \<and>
         list_ex (\<lambda>r. c_id r \<noteq> c_id this \<and> c_docker_id r = Some dockerId) (containers db)
      then (Inl (Error ''SQLITE_CONSTRAINT: UNIQUE constraint failed: containers.docker_id''), db)
      else (Inr (if row_exists db (c_id this) then this\<lparr>c_docker_id := Some dockerId\<rparr> else this),
            db\<lparr>containers :=
                 map (\<lambda>r. if c_id r = c_id this then r\<lparr>c_docker_id := Some dockerId\<rparr> else r)
                   (containers db)\<rparr>))"

definition addLog :: "container \<Rightarrow> string \<Rightarrow> string \<Rightarrow> database \<Rightarrow> database" where
  "addLog this content logType db =
     db\<lparr>container_logs := container_logs db @
          [\<lparr>l_container_id = c_id this, l_content = content, l_type = logType\<rparr>]\<rparr>"

definition getSettings :: "container \<Rightarrow> database \<Rightarrow> settings option" where
  "getSettings this db = map_of (container_settings db) (c_id this)"

text \<open>
  \<open>Container.create(containerData, userId)\<close>. The identifier comes from \<open>uuidv4\<close> and
  is an input here (\<open>newId\<close>). The \<open>INSERT\<close> fails on a primary key that exists. The new
  row has status \<open>created\<close> and no \<open>docker_id\<close>, and is the newest.
\<close>

definition create_Container ::
  "string \<Rightarrow> string \<Rightarrow> string \<Rightarrow> string \<Rightarrow> nat \<Rightarrow> database \<Rightarrow> (exn + container) \<times> database" where
  "create_Container newId name img folder_path userId db =
     (if row_exists db newId
      then (Inl (Error ''SQLITE_CONSTRAINT: UNIQUE constraint failed: containers.id''), db)
      else (let row = \<lparr>c_id = newId, c_name = name, c_docker_id = None, c_image = img,
                       c_status = ''created'', c_folder_path = folder_path,
                       c_startup_script = None, c_created_by = userId\<rparr>
            in (Inr (new_Container row), db\<lparr>containers := row # containers db\<rparr>)))"

section \<open>State reconciler\<close>

text \<open>
  What \<open>dockerManager.listContainers\<close> returns for one engine object (the fields Sync
  reads), and what \<open>dockerManager.getContainer\<close> returns (the fields the monitor reads).
\<close>

record docker_container =
  dc_dockerId :: string
  dc_name :: string
  dc_image :: string
  dc_status :: string
  dc_labels :: "(string \<times> string) list"

record docker_info =
  di_status :: string
  di_running :: bool

text \<open>
  The engine as one tick sees it: the answer of each call. \<open>restartContainer\<close> answers
  \<open>None\<close> on success and the thrown error otherwise.
\<close>

record engine =
  e_listContainers :: "exn + docker_container list"
  e_getContainer :: "string \<Rightarrow> exn + docker_info"
  e_restartContainer :: "string \<Rightarrow> exn option"

subsection \<open>\<open>syncContainers\<close>\<close>

text \<open>
  The match of the first loop: the first engine object, in list order, whose id equals
  the record's \<open>docker_id\<close> or whose name equals the record's name.
\<close>

definition find_docker :: "docker_container list \<Rightarrow> container \<Rightarrow> docker_container option" where
  "find_docker dockerContainers dbContainer =
     find (\<lambda>dc. Some (dc_dockerId dc) = c_docker_id dbContainer \<or> dc_name dc = c_name dbContainer)
       dockerContainers"

text \<open>
  The body of the first loop for one record: the record as it is afterwards, what it
  adds to \<open>synced\<close> and \<open>updated\<close>, and the database.
\<close>

definition sync_one ::
  "docker_container list \<Rightarrow> container \<Rightarrow> database \<Rightarrow> (exn + container \<times> nat \<times> nat) \<times> database" where
  "sync_one dockerContainers dbContainer db =
     (case find_docker dockerContainers dbContainer of
        Some dockerContainer \<Rightarrow>
          (let (c1, db1, u1) =
                 (if c_status dbContainer \<noteq> dc_status dockerContainer
                  then (let (c', db') = updateStatus dbContainer (dc_status dockerContainer) db
                        in (c', db', 1::nat))
                  else (dbContainer, db, 0))
           in if falsy_str (c_docker_id c1) \<and> dc_dockerId dockerContainer \<noteq> []
              then (case updateDockerId c1 (dc_dockerId dockerContainer) db1 of
                      (Inl e, db2) \<Rightarrow> (Inl e, db2)
                    | (Inr c2, db2) \<Rightarrow> (Inr (c2, 1, u1 + 1), db2))
              else (Inr (c1, 1, u1), db1))
      | None \<Rightarrow>
          (if c_status dbContainer \<noteq> ''stopped''
           then (let (c', db') = updateStatus dbContainer ''stopped'' db
                 in (Inr (c', 0, 1),
                     addLog c' ''Container not found in Docker, marked as stopped'' ''warning'' db'))
           else (Inr (dbContainer, 0, 0), db)))"

text \<open>The first loop. An error thrown by a record ends the tick; what was written stays.\<close>

fun sync_existing ::
  "docker_container list \<Rightarrow> container list \<Rightarrow> database \<Rightarrow>
   (exn + container list \<times> nat \<times> nat) \<times> database" where
  "sync_existing dcs [] db = (Inr ([], 0, 0), db)"
| "sync_existing dcs (c # cs) db =
     (case sync_one dcs c db of
        (Inl e, db1) \<Rightarrow> (Inl e, db1)
      | (Inr (c', sy, up), db1) \<Rightarrow>
          (case sync_existing dcs cs db1 of
             (Inl e, db2) \<Rightarrow> (Inl e, db2)
           | (Inr (cs', sy', up'), db2) \<Rightarrow> (Inr (c' # cs', sy + sy', up + up'), db2)))"

text \<open>
  The auto-import of one engine object. Every failure inside is caught and logged to the
  console; the result says whether \<open>createdCount\<close> was incremented.
\<close>

definition import_one :: "string \<Rightarrow> docker_container \<Rightarrow> database \<Rightarrow> bool \<times> database" where
  "import_one newId dockerContainer db =
     (case create_Container newId (dc_name dockerContainer) (dc_image dockerContainer)
             (''/home/containers/'' @ dc_name dockerContainer) 1 db of
        (Inl e, db1) \<Rightarrow> (False, db1)
      | (Inr newContainer, db1) \<Rightarrow>
          (case updateDockerId newContainer (dc_dockerId dockerContainer) db1 of
             (Inl e, db2) \<Rightarrow> (False, db2)
           | (Inr c2, db2) \<Rightarrow>
               (let (c3, db3) = updateStatus c2 (dc_status dockerContainer) db2
                in (True, addLog c3 ''Container auto-imported from Docker'' ''info'' db3))))"

text \<open>
  The second loop, over the engine objects. \<open>dbContainers\<close> are the objects listed at the
  start of the tick, as the first loop left them. \<open>ids\<close> are the identifiers \<open>uuidv4\<close>
  yields, \<open>k\<close> counts the ones used.
\<close>

fun auto_import ::
  "(nat \<Rightarrow> string) \<Rightarrow> container list \<Rightarrow> docker_container list \<Rightarrow> database \<Rightarrow> nat \<Rightarrow>
   nat \<times> database" where
  "auto_import ids dbContainers [] db k = (0, db)"
| "auto_import ids dbContainers (dockerContainer # rest) db k =
     (if find (\<lambda>dc. c_docker_id dc = Some (dc_dockerId dockerContainer) \<or>
                     c_name dc = dc_name dockerContainer) dbContainers = None
         \<and> map_of (dc_labels dockerContainer) ''nexus-crate-flow'' = Some ''true''
      then (let (ok, db1) = import_one (ids k) dockerContainer db;
                (n, db2) = auto_import ids dbContainers rest db1 (Suc k)
            in ((if ok then 1 else 0) + n, db2))
      else auto_import ids dbContainers rest db k)"

record sync_result =
  synced :: nat
  updated :: nat
  created :: nat
  total_docker :: nat
  total_db :: nat

definition syncContainers ::
  "(nat \<Rightarrow> string) \<Rightarrow> engine \<Rightarrow> database \<Rightarrow> (exn + sync_result) \<times> database" where
  "syncContainers ids eng db =
     (case e_listContainers eng of
        Inl e \<Rightarrow> (Inl e, db)
      | Inr dockerContainers \<Rightarrow>
          (let dbContainers = list_containers 1000 None db
           in case sync_existing dockerContainers dbContainers db of
                (Inl e, db1) \<Rightarrow> (Inl e, db1)
              | (Inr (dbContainers', syncedCount, updatedCount), db1) \<Rightarrow>
                  (let (createdCount, db2) = auto_import ids dbContainers' dockerContainers db1 0
                   in (Inr \<lparr>synced = syncedCount, updated = updatedCount, created = createdCount,
                            total_docker = length dockerContainers,
                            total_db = length dbContainers\<rparr>, db2))))"

subsection \<open>\<open>restartContainer\<close>\<close>

text \<open>
  The state the reconciler's operations run on: the database, and two traces that stand
  for effects outside it: \<open>restart_calls\<close> lists the container ids on which
  \<open>DockerService.restartContainer\<close> was invoked, in order, and \<open>scheduled\<close> lists the
  startup scripts handed to \<open>setTimeout\<close> (container id, script).
\<close>

record ds_state =
  ds_db :: database
  restart_calls :: "string list"
  scheduled :: "(string \<times> string) list"

record restart_result =
  rr_success :: bool
  rr_status :: string

text \<open>
  The \<open>catch\<close> block of \<open>restartContainer\<close>: look the record up again, write the
  error entry when it exists, rethrow.
\<close>

definition restart_catch :: "exn \<Rightarrow> string \<Rightarrow> ds_state \<Rightarrow> (exn + restart_result) \<times> ds_state" where
  "restart_catch error containerId s =
     (Inl error,
      case findById (ds_db s) containerId of
        None \<Rightarrow> s
      | Some container \<Rightarrow>
          s\<lparr>ds_db := addLog container (''Container restart failed: '' @ message error) ''error''
                      (ds_db s)\<rparr>)"

definition restartContainer ::
  "engine \<Rightarrow> string \<Rightarrow> ds_state \<Rightarrow> (exn + restart_result) \<times> ds_state" where
  "restartContainer eng containerId s0 =
     (let s = s0\<lparr>restart_calls := restart_calls s0 @ [containerId]\<rparr>
      in case findById (ds_db s) containerId of
           None \<Rightarrow> restart_catch (Error ''Container not found'') containerId s
         | Some container \<Rightarrow>
             (case c_docker_id container of
                None \<Rightarrow> restart_catch (Error ''Container has no Docker ID'') containerId s
              | Some docker_id \<Rightarrow>
                  if docker_id = []
                  then restart_catch (Error ''Container has no Docker ID'') containerId s
                  else (let s1 = s\<lparr>ds_db := addLog container ''Container restart initiated''
                                                ''info'' (ds_db s)\<rparr>
                        in case e_restartContainer eng docker_id of
                             Some error \<Rightarrow> restart_catch error containerId s1
                           | None \<Rightarrow>
                               (let (c2, db2) = updateStatus container ''running'' (ds_db s1);
                                    db3 = addLog c2 ''Container restarted successfully'' ''info'' db2;
                                    s3 = s1\<lparr>ds_db := db3\<rparr>;
                                    s4 = (case c_startup_script c2 of
                                            None \<Rightarrow> s3
                                          | Some script \<Rightarrow>
                                              if script = [] then s3
                                              else s3\<lparr>scheduled := scheduled s3 @
                                                         [(containerId, script)]\<rparr>)
                                in (Inr \<lparr>rr_success = True, rr_status = ''running''\<rparr>, s4)))))"

subsection \<open>\<open>monitorContainerHealth\<close>\<close>

record health_check =
  hc_container_id :: string
  hc_name :: string
  hc_expected_status :: string
  hc_actual_status :: string
  hc_healthy :: bool
  hc_error :: "string option"

text \<open>
  The part of the loop body under \<open>if (!dockerInfo.running && container.status ===
  'running')\<close>: mark the record stopped, log it, read the settings and restart only when
  \<open>settings && settings.auto_restart\<close>. A failed restart is caught and logged.
\<close>

definition handle_unhealthy :: "engine \<Rightarrow> container \<Rightarrow> ds_state \<Rightarrow> container \<times> ds_state" where
  "handle_unhealthy eng container s =
     (let (c1, db1) = updateStatus container ''stopped'' (ds_db s);
          db2 = addLog c1 ''Container health check: status updated to stopped'' ''warning'' db1;
          s2 = s\<lparr>ds_db := db2\<rparr>
      in case getSettings c1 db2 of
           None \<Rightarrow> (c1, s2)
         | Some st \<Rightarrow>
             if s_auto_restart st
             then (let s3 = s2\<lparr>ds_db := addLog c1
                                 ''Auto-restart enabled, attempting to restart container'' ''info''
                                 (ds_db s2)\<rparr>
                   in case restartContainer eng (c_id c1) s3 of
                        (Inl restartError, s4) \<Rightarrow>
                          (c1, s4\<lparr>ds_db := addLog c1
                                     (''Auto-restart failed: '' @ message restartError) ''error''
                                     (ds_db s4)\<rparr>)
                      | (Inr r, s4) \<Rightarrow> (c1, s4))
             else (c1, s2))"

text \<open>
  The loop body for one listed record: nothing for a record without \<open>docker_id\<close>;
  otherwise one health check. An inspect that throws gives the \<open>unknown\<close> check.
\<close>

definition monitor_one :: "engine \<Rightarrow> container \<Rightarrow> ds_state \<Rightarrow> health_check list \<times> ds_state" where
  "monitor_one eng container s =
     (case c_docker_id container of
        None \<Rightarrow> ([], s)
      | Some docker_id \<Rightarrow>
          if docker_id = [] then ([], s)
          else (case e_getContainer eng docker_id of
                  Inl error \<Rightarrow>
                    ([\<lparr>hc_container_id = c_id container, hc_name = c_name container,
                       hc_expected_status = c_status container, hc_actual_status = ''unknown'',
                       hc_healthy = False, hc_error = Some (message error)\<rparr>], s)
                | Inr dockerInfo \<Rightarrow>
                    (let (c', s') =
                           (if \<not> di_running dockerInfo \<and> c_status container = ''running''
                            then handle_unhealthy eng container s
                            else (container, s))
                     in ([\<lparr>hc_container_id = c_id c', hc_name = c_name c',
                            hc_expected_status = c_status c',
                            hc_actual_status = di_status dockerInfo,
                            hc_healthy = (di_running dockerInfo = (c_status c' = ''running'')),
                            hc_error = None\<rparr>], s'))))"

fun monitor_loop :: "engine \<Rightarrow> container list \<Rightarrow> ds_state \<Rightarrow> health_check list \<times> ds_state" where
  "monitor_loop eng [] s = ([], s)"
| "monitor_loop eng (container # rest) s =
     (let (hc, s1) = monitor_one eng container s;
          (hcs, s2) = monitor_loop eng rest s1
      in (hc @ hcs, s2))"

definition monitorContainerHealth :: "engine \<Rightarrow> ds_state \<Rightarrow> health_check list \<times> ds_state" where
  "monitorContainerHealth eng s =
     monitor_loop eng (list_containers 1000 (Some ''running'') (ds_db s)) s"

text \<open>
  Any number of monitor ticks, one after the other; the engine may answer differently at
  each tick.
\<close>

fun monitor_ticks :: "engine list \<Rightarrow> ds_state \<Rightarrow> ds_state" where
  "monitor_ticks [] s = s"
| "monitor_ticks (eng # engs) s = monitor_ticks engs (snd (monitorContainerHealth eng s))"

text \<open>The auto-restart flag of a container: false when it has no settings row.\<close>

definition auto_restart_enabled :: "database \<Rightarrow> string \<Rightarrow> bool" where
  "auto_restart_enabled db containerId =
     (case map_of (container_settings db) containerId of
        None \<Rightarrow> False
      | Some st \<Rightarrow> s_auto_restart st)"

subsection \<open>Example data\<close>

definition ex_container :: container where
  "ex_container = \<lparr>c_id = ''c1'', c_name = ''web'', c_docker_id = Some ''e1'', c_image = ''nginx'',
     c_status = ''running'', c_folder_path = ''/home/containers/c1'', c_startup_script = None,
     c_created_by = 1\<rparr>"

definition ex_state :: "bool \<Rightarrow> ds_state" where
  "ex_state auto_restart =
     \<lparr>ds_db = \<lparr>containers = [ex_container], container_logs = [],
                container_settings = [(''c1'', \<lparr>s_auto_restart = auto_restart\<rparr>)]\<rparr>,
      restart_calls = [], scheduled = []\<rparr>"

text \<open>An engine that reports every object as exited and fails every restart.\<close>

definition ex_engine_down :: engine where
  "ex_engine_down =
     \<lparr>e_listContainers = Inr [],
      e_getContainer = (\<lambda>r. Inr \<lparr>di_status = ''exited'', di_running = False\<rparr>),
      e_restartContainer = (\<lambda>r. Some (Error ''engine fault''))\<rparr>"

section \<open>Log lifecycle manager: operations\<close>

text \<open>
  File-system calls on the tree. \<open>mkdir\<close> is recursive (no error when the directory
  exists); \<open>writeFile\<close> and \<open>appendFile\<close> create the file when it is missing and fail
  with \<open>ENOENT\<close> when the directory is; both set the modification time to \<open>now\<close>.
\<close>

definition fs_mkdir :: "string \<Rightarrow> log_fs \<Rightarrow> log_fs" where
  "fs_mkdir d fs = (case map_of fs d of None \<Rightarrow> fs @ [(d, [])] | Some dir \<Rightarrow> fs)"

definition fs_writeFile :: "string \<Rightarrow> string \<Rightarrow> string \<Rightarrow> int \<Rightarrow> log_fs \<Rightarrow> exn + log_fs" where
  "fs_writeFile d n content now fs =
     (case map_of fs d of
        None \<Rightarrow> Inl (ENOENT (d @ ''/'' @ n))
      | Some dir \<Rightarrow>
          Inr (AList.update d (AList.update n \<lparr>f_content = content, f_mtime = now\<rparr> dir) fs))"

definition fs_appendFile :: "string \<Rightarrow> string \<Rightarrow> string \<Rightarrow> int \<Rightarrow> log_fs \<Rightarrow> exn + log_fs" where
  "fs_appendFile d n content now fs =
     (case map_of fs d of
        None \<Rightarrow> Inl (ENOENT (d @ ''/'' @ n))
      | Some dir \<Rightarrow>
          (let old = (case map_of dir n of None \<Rightarrow> [] | Some f \<Rightarrow> f_content f)
           in Inr (AList.update d
                     (AList.update n \<lparr>f_content = old @ content, f_mtime = now\<rparr> dir) fs)))"

definition fs_readFile :: "string \<Rightarrow> string \<Rightarrow> log_fs \<Rightarrow> exn + string" where
  "fs_readFile d n fs =
     (case lookup_file fs d n of
        None \<Rightarrow> Inl (ENOENT (d @ ''/'' @ n))
      | Some f \<Rightarrow> Inr (f_content f))"

text \<open>
  \<open>path.join\<close> of the log path with \<open>container-<id>\<close> and with \<open><logType>.log\<close>. The
  container id and the category are plain names here: one that holds a path separator
  would name a file in another directory and is outside the model.
\<close>

definition getContainerLogPath :: "string \<Rightarrow> string" where
  "getContainerLogPath containerId = ''container-'' @ containerId"

definition log_file_name :: "string \<Rightarrow> string" where
  "log_file_name logType = logType @ ''.log''"

text \<open>
  An entry as \<open>readLogs\<close> returns it and as \<open>notifyLogUpdate\<close> passes it on. The
  service holds the tree, the registered streams per container, and what was written to
  each stream.
\<close>

record log_entry =
  le_timestamp :: string
  le_content :: string
  le_source :: string
  le_type :: string

record log_service =
  ls_fs :: log_fs
  ls_logStreams :: "(string \<times> nat list) list"
  ls_written :: "(nat \<times> log_entry) list"

text \<open>\<open>createContainerLogDirectory\<close>: the directory and the three default files.\<close>

fun create_default_files :: "string \<Rightarrow> string list \<Rightarrow> int \<Rightarrow> log_fs \<Rightarrow> exn + log_fs" where
  "create_default_files d [] now fs = Inr fs"
| "create_default_files d (logFile # logFiles) now fs =
     (if lookup_file fs d logFile \<noteq> None then create_default_files d logFiles now fs
      else (case fs_writeFile d logFile [] now fs of
              Inl e \<Rightarrow> Inl e
            | Inr fs' \<Rightarrow> create_default_files d logFiles now fs'))"

definition createContainerLogDirectory :: "string \<Rightarrow> int \<Rightarrow> log_fs \<Rightarrow> exn + log_fs" where
  "createContainerLogDirectory containerId now fs =
     create_default_files (getContainerLogPath containerId)
       [''application.log'', ''startup.log'', ''error.log''] now
       (fs_mkdir (getContainerLogPath containerId) fs)"

definition notifyLogUpdate :: "string \<Rightarrow> log_entry \<Rightarrow> log_service \<Rightarrow> log_service" where
  "notifyLogUpdate containerId logEntry ls =
     (case map_of (ls_logStreams ls) containerId of
        None \<Rightarrow> ls
      | Some streams \<Rightarrow> ls\<lparr>ls_written := ls_written ls @ map (\<lambda>st. (st, logEntry)) streams\<rparr>)"

text \<open>
  \<open>writeLog(containerId, content, logType)\<close>: \<open>ts\<close> is \<open>new Date().toISOString()\<close> and
  \<open>now\<close> the clock of the file system at the call.
\<close>

definition log_line :: "string \<Rightarrow> string \<Rightarrow> string" where
  "log_line ts content = ''['' @ ts @ ''] '' @ content @ [CHR 0x0A]"

definition writeLog ::
  "string \<Rightarrow> int \<Rightarrow> string \<Rightarrow> string \<Rightarrow> string \<Rightarrow> log_service \<times> database \<Rightarrow>
   (exn + unit) \<times> log_service \<times> database" where
  "writeLog ts now containerId content logType st =
     (case st of (ls, db) \<Rightarrow>
        (case createContainerLogDirectory containerId now (ls_fs ls) of
           Inl e \<Rightarrow> (Inl e, ls, db)
         | Inr fs1 \<Rightarrow>
             (case fs_appendFile (getContainerLogPath containerId) (log_file_name logType)
                     (log_line ts content) now fs1 of
                Inl e \<Rightarrow> (Inl e, ls\<lparr>ls_fs := fs1\<rparr>, db)
              | Inr fs2 \<Rightarrow>
                  (Inr (),
                   notifyLogUpdate containerId
                     \<lparr>le_timestamp = ts, le_content = content, le_source = ''application'',
                        le_type = logType\<rparr> (ls\<lparr>ls_fs := fs2\<rparr>),
                   (case findById db containerId of
                      None \<Rightarrow> db
                    | Some container \<Rightarrow> addLog container content logType db)))))"

text \<open>A sequence of appends to one category of one container; it stops at an error.\<close>

fun append_all ::
  "string \<Rightarrow> string \<Rightarrow> (string \<times> int \<times> string) list \<Rightarrow> log_service \<times> database \<Rightarrow>
   (exn + unit) \<times> log_service \<times> database" where
  "append_all containerId logType [] st = (Inr (), st)"
| "append_all containerId logType ((ts, now, content) # rest) st =
     (case writeLog ts now containerId content logType st of
        (Inl e, st') \<Rightarrow> (Inl e, st')
      | (Inr u, st') \<Rightarrow> append_all containerId logType rest st')"

subsection \<open>\<open>readLogs\<close>\<close>

text \<open>\<open>String.prototype.split\<close> on one character.\<close>

fun js_split :: "char \<Rightarrow> string \<Rightarrow> string list" where
  "js_split sep [] = [[]]"
| "js_split sep (c # cs) =
     (if c = sep then [] # js_split sep cs
      else (case js_split sep cs of [] \<Rightarrow> [[c]] | l # ls \<Rightarrow> (c # l) # ls))"

text \<open>
  \<open>String.prototype.trim\<close> strips the white space and the line terminators at both
  ends of a string. These are the characters TAB, LF, VT, FF, CR, SP, U+00A0, U+1680,
  U+2000 to U+200A, U+2028, U+2029, U+202F, U+205F, U+3000 and U+FEFF; \<open>white_space\<close>
  lists their encodings.
\<close>

definition white_space :: "string list" where
  "white_space =
     [[CHR 0x09], [CHR 0x0A], [CHR 0x0B], [CHR 0x0C], [CHR 0x0D], [CHR 0x20],
      [CHR 0xC2, CHR 0xA0], [CHR 0xE1, CHR 0x9A, CHR 0x80],
      [CHR 0xE2, CHR 0x80, CHR 0x80], [CHR 0xE2, CHR 0x80, CHR 0x81],
      [CHR 0xE2, CHR 0x80, CHR 0x82], [CHR 0xE2, CHR 0x80, CHR 0x83],
      [CHR 0xE2, CHR 0x80, CHR 0x84], [CHR 0xE2, CHR 0x80, CHR 0x85],
      [CHR 0xE2, CHR 0x80, CHR 0x86], [CHR 0xE2, CHR 0x80, CHR 0x87],
      [CHR 0xE2, CHR 0x80, CHR 0x88], [CHR 0xE2, CHR 0x80, CHR 0x89],
      [CHR 0xE2, CHR 0x80, CHR 0x8A], [CHR 0xE2, CHR 0x80, CHR 0xA8],
      [CHR 0xE2, CHR 0x80, CHR 0xA9], [CHR 0xE2, CHR 0x80, CHR 0xAF],
      [CHR 0xE2, CHR 0x81, CHR 0x9F], [CHR 0xE3, CHR 0x80, CHR 0x80],
      [CHR 0xEF, CHR 0xBB, CHR 0xBF]]"

text \<open>
  Stripping at the start: as long as the string begins with one of the encodings \<open>ws\<close>,
  that character is dropped. Stripping at the end is the same on the reversed string.
\<close>

fun trimStart :: "string list \<Rightarrow> string \<Rightarrow> string" where
  "trimStart ws [] = []"
| "trimStart ws (c # cs) =
     (case find (\<lambda>w. prefix w (c # cs)) ws of
        None \<Rightarrow> c # cs
      | Some w \<Rightarrow> trimStart ws (drop (length w - 1) cs))"

definition trim :: "string \<Rightarrow> string" where
  "trim s = rev (trimStart (map rev white_space) (rev (trimStart white_space s)))"

text \<open>
  The regular expression \<open>/^\[([^\]]+)\]/\<close>: the group, and what follows the closing
  bracket.
\<close>

fun match_timestamp :: "string \<Rightarrow> (string \<times> string) option" where
  "match_timestamp [] = None"
| "match_timestamp (c # cs) =
     (if c = CHR ''[''
      then (let ts = takeWhile (\<lambda>x. x \<noteq> CHR '']'') cs;
                rest = dropWhile (\<lambda>x. x \<noteq> CHR '']'') cs
            in if ts \<noteq> [] \<and> rest \<noteq> [] then Some (ts, tl rest) else None)
      else None)"

text \<open>
  The dot of a regular expression (without the \<open>s\<close> flag) matches any character but
  a line terminator: LF, CR, U+2028 and U+2029. \<open>dot_star_end s\<close> says that \<open>(.*)$\<close>
  matches the string \<open>s\<close> up to its end: no line terminator begins anywhere in it.
\<close>

definition line_terminators :: "string list" where
  "line_terminators =
     [[CHR 0x0A], [CHR 0x0D], [CHR 0xE2, CHR 0x80, CHR 0xA8], [CHR 0xE2, CHR 0x80, CHR 0xA9]]"

fun dot_star_end :: "string \<Rightarrow> bool" where
  "dot_star_end [] = True"
| "dot_star_end (c # cs) =
     (find (\<lambda>t. prefix t (c # cs)) line_terminators = None \<and> dot_star_end cs)"

text \<open>
  The regular expression \<open>/^\[([^\]]+)\] (.*)$/\<close>: after the bracket a space, then
  characters other than line terminators up to the end of the line.
\<close>

definition match_entry :: "string \<Rightarrow> (string \<times> string) option" where
  "match_entry line =
     (case match_timestamp line of
        None \<Rightarrow> None
      | Some (ts, rest) \<Rightarrow>
          (case rest of
             [] \<Rightarrow> None
           | c # content \<Rightarrow>
               if c = CHR '' '' \<and> dot_star_end content then Some (ts, content) else None))"

definition parse_line :: "string \<Rightarrow> string \<Rightarrow> string \<Rightarrow> log_entry" where
  "parse_line nowIso logType line =
     (case match_entry line of
        Some (ts, content) \<Rightarrow>
          \<lparr>le_timestamp = ts, le_content = content, le_source = ''file'', le_type = logType\<rparr>
      | None \<Rightarrow>
          \<lparr>le_timestamp = nowIso, le_content = line, le_source = ''file'', le_type = logType\<rparr>)"

text \<open>\<open>lines.slice(-tail)\<close> for a positive \<open>tail\<close>.\<close>

definition slice_last :: "nat \<Rightarrow> 'a list \<Rightarrow> 'a list" where
  "slice_last n xs = drop (length xs - n) xs"

text \<open>
  \<open>readLogs(containerId, {logType, tail, since})\<close>. \<open>nowIso\<close> is the clock for lines
  without a timestamp. \<open>since\<close>, when given, is the test \<open>new Date(ts) >= new
  Date(since)\<close> on a line's timestamp; dates are not parsed here.
\<close>

definition readLogs ::
  "string \<Rightarrow> string \<Rightarrow> string \<Rightarrow> int \<Rightarrow> (string \<Rightarrow> bool) option \<Rightarrow> log_fs \<Rightarrow>
   exn + log_entry list" where
  "readLogs nowIso containerId logType tail since fs =
     (case fs_readFile (getContainerLogPath containerId) (log_file_name logType) fs of
        Inl (ENOENT p) \<Rightarrow> Inr []
      | Inl (Error m) \<Rightarrow> Inl (Error m)
      | Inr content \<Rightarrow>
          (let lines = filter (\<lambda>line. trim line \<noteq> []) (js_split (CHR 0x0A) content);
               lines1 = (case since of
                           None \<Rightarrow> lines
                         | Some newer \<Rightarrow>
                             filter (\<lambda>line. case match_timestamp line of
                                               Some (ts, rest) \<Rightarrow> newer ts
                                             | None \<Rightarrow> True) lines);
               lines2 = (if tail > 0 then slice_last (nat tail) lines1 else lines1)
           in Inr (map (parse_line nowIso logType) lines2)))"

subsection \<open>\<open>clearLogs\<close>\<close>

definition clearLogs ::
  "int \<Rightarrow> string \<Rightarrow> string \<Rightarrow> log_service \<times> database \<Rightarrow> (exn + unit) \<times> log_service \<times> database" where
  "clearLogs now containerId logType st =
     (case st of (ls, db) \<Rightarrow>
        (case fs_writeFile (getContainerLogPath containerId) (log_file_name logType) [] now
                (ls_fs ls) of
           Inl e \<Rightarrow> (Inl e, ls, db)
         | Inr fs' \<Rightarrow>
             (Inr (), ls\<lparr>ls_fs := fs'\<rparr>,
              (case findById db containerId of
                 None \<Rightarrow> db
               | Some container \<Rightarrow> addLog container (logType @ '' logs cleared'') ''info'' db))))"

subsection \<open>Vocabulary for the log properties\<close>

text \<open>The content of a file of the tree; a missing file reads as empty.\<close>

definition file_content :: "log_fs \<Rightarrow> string \<Rightarrow> string \<Rightarrow> string" where
  "file_content fs d n = (case lookup_file fs d n of None \<Rightarrow> [] | Some f \<Rightarrow> f_content f)"

text \<open>
  An append \<open>(ts, now, content)\<close> is line-shaped when the timestamp is what
  \<open>toISOString\<close> yields (not empty, no closing bracket, no line feed) and the content
  holds no line terminator: no line feed, no carriage return, no U+2028 and no U+2029.
\<close>

definition line_shaped :: "string \<times> int \<times> string \<Rightarrow> bool" where
  "line_shaped e =
     (case e of (ts, now, content) \<Rightarrow>
        ts \<noteq> [] \<and> CHR '']'' \<notin> set ts \<and> CHR 0x0A \<notin> set ts
        \<and> \<not> includes_str content [CHR 0x0A]
        \<and> \<not> includes_str content [CHR 0x0D]
        \<and> \<not> includes_str content [CHR 0xE2, CHR 0x80, CHR 0xA8]
        \<and> \<not> includes_str content [CHR 0xE2, CHR 0x80, CHR 0xA9])"

text \<open>The entry \<open>readLogs\<close> is to return for an append.\<close>

definition entry_of :: "string \<Rightarrow> string \<times> int \<times> string \<Rightarrow> log_entry" where
  "entry_of logType e =
     (case e of (ts, now, content) \<Rightarrow>
        \<lparr>le_timestamp = ts, le_content = content, le_source = ''file'', le_type = logType\<rparr>)"

definition ex_log_service :: log_service where
  "ex_log_service = \<lparr>ls_fs = [], ls_logStreams = [], ls_written = []\<rparr>"

definition ex_database :: database where
  "ex_database = \<lparr>containers = [ex_container], container_logs = [], container_settings = []\<rparr>"

definition ex_appends :: "(string \<times> int \<times> string) list" where
  "ex_appends = [(''2026-01-01T00:00:00.000Z'', 1, ''boot ok''),
                 (''2026-01-01T00:00:01.000Z'', 2, ''listening'')]"

text \<open>One append whose content has two lines.\<close>

definition ex_append_two_lines :: "(string \<times> int \<times> string) list" where
  "ex_append_two_lines = [(''2026-01-01T00:00:02.000Z'', 3, ''stack'' @ [CHR 0x0A] @ ''trace'')]"

text \<open>One append whose content holds the line separator U+2028 and no line break.\<close>

definition ex_append_separator :: "(string \<times> int \<times> string) list" where
  "ex_append_separator =
     [(''2026-01-01T00:00:03.000Z'', 4, ''a'' @ [CHR 0xE2, CHR 0x80, CHR 0xA8] @ ''b'')]"

text \<open>The text of a line that \<open>writeLog\<close> appends, without its final line feed.\<close>

definition line_body :: "string \<times> int \<times> string \<Rightarrow> string" where
  "line_body e = ''['' @ fst e @ ''] '' @ snd (snd e)"

section \<open>Real-time channel service\<close>

text \<open>
  A connection's socket is known by a number. The events the service sends (their
  timestamps left out), a row of the client table, and the service's two maps in
  insertion order: \<open>clients\<close> (client id to client) and \<open>containerStreams\<close> (container
  id to its set of subscribed sockets). \<open>sent\<close> is the trace of what was handed to
  \<open>ws.send\<close>, in order.
\<close>

type_synonym ws = nat

datatype event =
    Welcome
  | ErrorEvent string
  | AuthenticatedEvent string nat string string
  | LogSubscriptionSuccess string string
  | LogEntryEvent string log_entry
  | LogUnsubscriptionSuccess string
  | CommandStarted string string
  | CommandOutput string string
  | CommandCompleted string string
  | CommandError string string
  | ContainerStatusEvent string string string "docker_info option"
  | ContainerStatusChange string string

record client =
  cl_ws :: ws
  cl_userId :: nat
  cl_username :: string
  cl_role :: string

record ws_service =
  clients :: "(string \<times> client) list"
  containerStreams :: "(string \<times> ws list) list"
  sent :: "(ws \<times> event) list"

text \<open>The variables \<open>setupConnection\<close> closes over, per connection.\<close>

record connection =
  clientId :: "string option"
  userId :: "nat option"
  authenticated :: bool
  subscribedContainers :: "string list"

text \<open>A parsed message: its \<open>type\<close> and the fields the handlers read.\<close>

record ws_message =
  m_type :: "string option"
  m_token :: "string option"
  m_container_id :: "string option"
  m_command :: "string option"
  m_working_dir :: "string option"

record decoded =
  d_userId :: nat
  d_username :: string
  d_role :: string

datatype stream_event = Data string | End | StreamError string

text \<open>
  What a handler meets outside the service: which sockets are open (\<open>readyState ===
  OPEN\<close>), the token check (\<open>None\<close> when \<open>jwt.verify\<close> throws), the client id to be
  generated, the clock, the engine, the events of the stream an exec call returns, and
  the log tree of the log service (\<open>None\<close> while \<open>this.logService\<close> is still null).
\<close>

record ws_env =
  is_open :: "ws \<Rightarrow> bool"
  jwt_verify :: "string \<Rightarrow> decoded option"
  new_clientId :: string
  now_iso :: string
  env_engine :: engine
  exec_stream :: "string \<Rightarrow> string list \<Rightarrow> string \<Rightarrow> exn + stream_event list"
  logService :: "log_fs option"

definition sendMessage :: "ws_env \<Rightarrow> ws \<Rightarrow> event \<Rightarrow> ws_service \<Rightarrow> ws_service" where
  "sendMessage env w ev svc = (if is_open env w then svc\<lparr>sent := sent svc @ [(w, ev)]\<rparr> else svc)"

definition sendError :: "ws_env \<Rightarrow> ws \<Rightarrow> string \<Rightarrow> ws_service \<Rightarrow> ws_service" where
  "sendError env w e svc = sendMessage env w (ErrorEvent e) svc"

text \<open>\<open>Set.prototype.add\<close> on a set kept in insertion order.\<close>

definition set_add :: "'a \<Rightarrow> 'a list \<Rightarrow> 'a list" where
  "set_add x xs = (if x \<in> set xs then xs else xs @ [x])"

definition subscribeToContainerLogs :: "string \<Rightarrow> ws \<Rightarrow> ws_service \<Rightarrow> ws_service" where
  "subscribeToContainerLogs containerId w svc =
     svc\<lparr>containerStreams :=
           (case map_of (containerStreams svc) containerId of
              None \<Rightarrow> AList.update containerId [w] (containerStreams svc)
            | Some subscribers \<Rightarrow>
                AList.update containerId (set_add w subscribers) (containerStreams svc))\<rparr>"

definition unsubscribeFromContainerLogs :: "string \<Rightarrow> ws \<Rightarrow> ws_service \<Rightarrow> ws_service" where
  "unsubscribeFromContainerLogs containerId w svc =
     (case map_of (containerStreams svc) containerId of
        None \<Rightarrow> svc
      | Some subscribers \<Rightarrow>
          if removeAll w subscribers = []
          then svc\<lparr>containerStreams := AList.delete containerId (containerStreams svc)\<rparr>
          else svc\<lparr>containerStreams :=
                     AList.update containerId (removeAll w subscribers) (containerStreams svc)\<rparr>)"

subsection \<open>Broadcast\<close>

text \<open>
  \<open>broadcastLogEntry\<close>: \<open>forEach\<close> over the container's subscriber set; an open socket
  is sent the entry, any other is deleted from the set.
\<close>

fun broadcast_loop :: "ws_env \<Rightarrow> string \<Rightarrow> log_entry \<Rightarrow> ws list \<Rightarrow> ws_service \<Rightarrow> ws_service" where
  "broadcast_loop env containerId logEntry [] svc = svc"
| "broadcast_loop env containerId logEntry (w # rest) svc =
     broadcast_loop env containerId logEntry rest
       (if is_open env w then sendMessage env w (LogEntryEvent containerId logEntry) svc
        else svc\<lparr>containerStreams :=
                   AList.map_entry containerId (removeAll w) (containerStreams svc)\<rparr>)"

definition broadcastLogEntry :: "ws_env \<Rightarrow> string \<Rightarrow> log_entry \<Rightarrow> ws_service \<Rightarrow> ws_service" where
  "broadcastLogEntry env containerId logEntry svc =
     (case map_of (containerStreams svc) containerId of
        None \<Rightarrow> svc
      | Some subscribers \<Rightarrow> broadcast_loop env containerId logEntry subscribers svc)"

text \<open>
  \<open>broadcastContainerStatus\<close>: \<open>forEach\<close> over the client table (``send to all
  authenticated clients''); a client whose socket is not open is skipped.
\<close>

fun status_loop :: "ws_env \<Rightarrow> string \<Rightarrow> string \<Rightarrow> (string \<times> client) list \<Rightarrow> ws_service \<Rightarrow> ws_service" where
  "status_loop env containerId status [] svc = svc"
| "status_loop env containerId status (entry # rest) svc =
     status_loop env containerId status rest
       (if is_open env (cl_ws (snd entry))
        then sendMessage env (cl_ws (snd entry)) (ContainerStatusChange containerId status) svc
        else svc)"

definition broadcastContainerStatus :: "ws_env \<Rightarrow> string \<Rightarrow> string \<Rightarrow> ws_service \<Rightarrow> ws_service" where
  "broadcastContainerStatus env containerId status svc =
     status_loop env containerId status (clients svc) svc"

subsection \<open>Message handlers\<close>

definition handleAuthentication ::
  "ws_env \<Rightarrow> ws \<Rightarrow> ws_message \<Rightarrow> connection \<times> ws_service \<Rightarrow> connection \<times> ws_service" where
  "handleAuthentication env w msg st =
     (case st of (conn, svc) \<Rightarrow>
        if falsy_str (m_token msg)
        then (conn, sendError env w ''Token required for authentication'' svc)
        else (case jwt_verify env (the (m_token msg)) of
                None \<Rightarrow> (conn, sendError env w ''Authentication failed'' svc)
              | Some d \<Rightarrow>
                  (conn\<lparr>clientId := Some (new_clientId env), userId := Some (d_userId d),
                        authenticated := True\<rparr>,
                   sendMessage env w
                     (AuthenticatedEvent (new_clientId env) (d_userId d) (d_username d) (d_role d))
                     (svc\<lparr>clients := AList.update (new_clientId env)
                            \<lparr>cl_ws = w, cl_userId = d_userId d, cl_username = d_username d,
                              cl_role = d_role d\<rparr> (clients svc)\<rparr>))))"

text \<open>
  The ownership check shared by three handlers: \<open>client && client.role !== 'admin' &&
  container.created_by !== userId\<close>, with \<open>client\<close> the first row of the client table
  on this socket.
\<close>

definition access_denied :: "ws \<Rightarrow> connection \<Rightarrow> ws_service \<Rightarrow> container \<Rightarrow> bool" where
  "access_denied w conn svc container =
     (case find (\<lambda>c. cl_ws c = w) (map snd (clients svc)) of
        None \<Rightarrow> False
      | Some c \<Rightarrow> cl_role c \<noteq> ''admin'' \<and> Some (c_created_by container) \<noteq> userId conn)"

definition handleLogSubscription ::
  "ws_env \<Rightarrow> ws \<Rightarrow> ws_message \<Rightarrow> database \<Rightarrow> connection \<times> ws_service \<Rightarrow> connection \<times> ws_service" where
  "handleLogSubscription env w msg db st =
     (case st of (conn, svc) \<Rightarrow>
        if falsy_str (m_container_id msg) then (conn, sendError env w ''Container ID required'' svc)
        else (let container_id = the (m_container_id msg)
              in case findById db container_id of
                   None \<Rightarrow> (conn, sendError env w ''Container not found'' svc)
                 | Some container \<Rightarrow>
                     if access_denied w conn svc container
                     then (conn, sendError env w ''Access denied'' svc)
                     else (let svc1 = subscribeToContainerLogs container_id w svc;
                               conn1 = conn\<lparr>subscribedContainers :=
                                              set_add container_id (subscribedContainers conn)\<rparr>;
                               svc2 = sendMessage env w
                                        (LogSubscriptionSuccess container_id (c_name container)) svc1
                           in (conn1,
                               (case logService env of
                                  None \<Rightarrow> svc2
                                | Some fs \<Rightarrow>
                                    (case readLogs (now_iso env) container_id ''application'' 50
                                            None fs of
                                       Inl e \<Rightarrow> svc2
                                     | Inr recentLogs \<Rightarrow>
                                         fold (\<lambda>log. sendMessage env w
                                                 (LogEntryEvent container_id log))
                                           recentLogs svc2))))))"

definition handleLogUnsubscription ::
  "ws_env \<Rightarrow> ws \<Rightarrow> ws_message \<Rightarrow> connection \<times> ws_service \<Rightarrow> connection \<times> ws_service" where
  "handleLogUnsubscription env w msg st =
     (case st of (conn, svc) \<Rightarrow>
        if falsy_str (m_container_id msg) then (conn, sendError env w ''Container ID required'' svc)
        else (let container_id = the (m_container_id msg)
              in (conn\<lparr>subscribedContainers := removeAll container_id (subscribedContainers conn)\<rparr>,
                  sendMessage env w (LogUnsubscriptionSuccess container_id)
                    (unsubscribeFromContainerLogs container_id w svc))))"

text \<open>The events of the exec stream, relayed in order after \<open>command_started\<close>.\<close>

fun relay_stream :: "ws_env \<Rightarrow> ws \<Rightarrow> string \<Rightarrow> string \<Rightarrow> stream_event list \<Rightarrow> ws_service \<Rightarrow> ws_service" where
  "relay_stream env w container_id command [] svc = svc"
| "relay_stream env w container_id command (Data chunk # rest) svc =
     relay_stream env w container_id command rest
       (sendMessage env w (CommandOutput container_id chunk) svc)"
| "relay_stream env w container_id command (End # rest) svc =
     relay_stream env w container_id command rest
       (sendMessage env w (CommandCompleted container_id command) svc)"
| "relay_stream env w container_id command (StreamError m # rest) svc =
     relay_stream env w container_id command rest
       (sendMessage env w (CommandError container_id m) svc)"

definition handleCommandExecution ::
  "ws_env \<Rightarrow> ws \<Rightarrow> ws_message \<Rightarrow> connection \<Rightarrow> ws_service \<times> database \<Rightarrow> ws_service \<times> database" where
  "handleCommandExecution env w msg conn st =
     (case st of (svc, db) \<Rightarrow>
        if falsy_str (m_container_id msg) \<or> falsy_str (m_command msg)
        then (sendError env w ''Container ID and command required'' svc, db)
        else (let container_id = the (m_container_id msg);
                  command = the (m_command msg);
                  working_dir = (case m_working_dir msg of None \<Rightarrow> ''/app'' | Some d \<Rightarrow> d)
              in case findById db container_id of
                   None \<Rightarrow> (sendError env w ''Container not found'' svc, db)
                 | Some container \<Rightarrow>
                     if access_denied w conn svc container
                     then (sendError env w ''Access denied'' svc, db)
                     else if falsy_str (c_docker_id container)
                     then (sendError env w ''Container has no Docker ID'' svc, db)
                     else (case exec_stream env (the (c_docker_id container))
                                  (js_split CHR '' '' command) working_dir of
                             Inl e \<Rightarrow> (sendError env w ''Failed to execute command'' svc, db)
                           | Inr events \<Rightarrow>
                               (relay_stream env w container_id command events
                                  (sendMessage env w (CommandStarted container_id command) svc),
                                addLog container
                                  (''Command executed via WebSocket: '' @ command) ''info'' db))))"

definition handleContainerStatus ::
  "ws_env \<Rightarrow> ws \<Rightarrow> ws_message \<Rightarrow> connection \<Rightarrow> database \<Rightarrow> ws_service \<Rightarrow> ws_service" where
  "handleContainerStatus env w msg conn db svc =
     (if falsy_str (m_container_id msg) then sendError env w ''Container ID required'' svc
      else (let container_id = the (m_container_id msg)
            in case findById db container_id of
                 None \<Rightarrow> sendError env w ''Container not found'' svc
               | Some container \<Rightarrow>
                   if access_denied w conn svc container then sendError env w ''Access denied'' svc
                   else sendMessage env w
                          (ContainerStatusEvent container_id (c_name container) (c_status container)
                             (if falsy_str (c_docker_id container) then None
                              else (case e_getContainer (env_engine env)
                                           (the (c_docker_id container)) of
                                      Inl e \<Rightarrow> Some \<lparr>di_status = ''not_found'', di_running = False\<rparr>
                                    | Inr dockerInfo \<Rightarrow> Some dockerInfo)))
                          svc))"

text \<open>
  The \<open>message\<close> handler of \<open>setupConnection\<close>. \<open>data\<close> is \<open>None\<close> when \<open>JSON.parse\<close>
  throws. The state is the connection's variables, the service and the database.
\<close>

definition on_message ::
  "ws_env \<Rightarrow> ws \<Rightarrow> ws_message option \<Rightarrow> connection \<times> ws_service \<times> database \<Rightarrow>
   connection \<times> ws_service \<times> database" where
  "on_message env w data st =
     (case st of (conn, svc, db) \<Rightarrow>
        (case data of
           None \<Rightarrow> (conn, sendError env w ''Invalid message format'' svc, db)
         | Some msg \<Rightarrow>
             if m_type msg = Some ''authenticate''
             then (case handleAuthentication env w msg (conn, svc) of
                     (conn', svc') \<Rightarrow> (conn', svc', db))
             else if m_type msg = Some ''subscribe_logs''
             then (if authenticated conn
                   then (case handleLogSubscription env w msg db (conn, svc) of
                           (conn', svc') \<Rightarrow> (conn', svc', db))
                   else (conn, sendError env w ''Authentication required'' svc, db))
             else if m_type msg = Some ''unsubscribe_logs''
             then (if authenticated conn
                   then (case handleLogUnsubscription env w msg (conn, svc) of
                           (conn', svc') \<Rightarrow> (conn', svc', db))
                   else (conn, svc, db))
             else if m_type msg = Some ''execute_command''
             then (if authenticated conn
                   then (case handleCommandExecution env w msg conn (svc, db) of
                           (svc', db') \<Rightarrow> (conn, svc', db'))
                   else (conn, sendError env w ''Authentication required'' svc, db))
             else if m_type msg = Some ''get_container_status''
             then (if authenticated conn
                   then (conn, handleContainerStatus env w msg conn db svc, db)
                   else (conn, sendError env w ''Authentication required'' svc, db))
             else (conn, sendError env w ''Unknown message type'' svc, db)))"

subsection \<open>Vocabulary and example data for the channel service\<close>

text \<open>The subscriber set of a container; empty when it has none.\<close>

definition subscribers_of :: "ws_service \<Rightarrow> string \<Rightarrow> ws list" where
  "subscribers_of svc containerId =
     (case map_of (containerStreams svc) containerId of None \<Rightarrow> [] | Some subscribers \<Rightarrow> subscribers)"

text \<open>
  Two authenticated clients, on sockets 1 and 2. Socket 2 is subscribed to container
  \<open>c1\<close> and its transport is no longer open; socket 1 is open and subscribed to
  nothing. Socket 3 is an open connection that has not authenticated.
\<close>

definition ex_ws_service :: ws_service where
  "ex_ws_service =
     \<lparr>clients = [(''client_1'', \<lparr>cl_ws = 1, cl_userId = 1, cl_username = ''ann'', cl_role = ''user''\<rparr>),
                 (''client_2'', \<lparr>cl_ws = 2, cl_userId = 2, cl_username = ''bob'', cl_role = ''user''\<rparr>)],
      containerStreams = [(''c1'', [2])],
      sent = []\<rparr>"

definition ex_ws_env :: ws_env where
  "ex_ws_env =
     \<lparr>is_open = (\<lambda>w. w \<noteq> 2),
      jwt_verify = (\<lambda>t. if t = ''good'' then Some \<lparr>d_userId = 1, d_username = ''ann'', d_role = ''user''\<rparr>
                         else None),
      new_clientId = ''client_3'',
      now_iso = ''2026-01-01T00:00:09.000Z'',
      env_engine = ex_engine_down,
      exec_stream = (\<lambda>r argv dir. Inr [End]),
      logService = None\<rparr>"

definition ex_connection :: connection where
  "ex_connection = \<lparr>clientId = None, userId = None, authenticated = False, subscribedContainers = []\<rparr>"

definition ex_message :: "string \<Rightarrow> ws_message" where
  "ex_message t = \<lparr>m_type = Some t, m_token = None, m_container_id = Some ''c1'',
                    m_command = Some ''ls'', m_working_dir = None\<rparr>"

definition ex_log_entry :: log_entry where
  "ex_log_entry = \<lparr>le_timestamp = ''2026-01-01T00:00:01.000Z'', le_content = ''listening'',
                    le_source = ''application'', le_type = ''startup''\<rparr>"

text \<open>What the broadcast loop keeps of a subscriber set after visiting the sockets \<open>ws\<close>.\<close>

definition keeps :: "ws_env \<Rightarrow> ws list \<Rightarrow> ws \<Rightarrow> bool" where
  "keeps env ws x = (x \<in> set ws \<longrightarrow> is_open env x)"

subsection \<open>Vocabulary for the Sync properties\<close>

text \<open>
  The match as the specification words it: by \<open>engineRef\<close> first, falling back to name
  equality. It is compared below with \<open>find_docker\<close>, the match of the code.
\<close>

definition spec_match :: "docker_container list \<Rightarrow> container \<Rightarrow> docker_container option" where
  "spec_match dockerContainers r =
     (case find (\<lambda>dc. Some (dc_dockerId dc) = c_docker_id r) dockerContainers of
        Some dc \<Rightarrow> Some dc
      | None \<Rightarrow> find (\<lambda>dc. dc_name dc = c_name r) dockerContainers)"

text \<open>
  A record's two keys agree on the engine's list when no engine object bears the
  record's name while a different engine object bears its \<open>docker_id\<close>.
\<close>

definition keys_agree :: "docker_container list \<Rightarrow> container \<Rightarrow> bool" where
  "keys_agree dockerContainers r =
     (\<forall>dc\<in>set dockerContainers. \<forall>dc'\<in>set dockerContainers.
        Some (dc_dockerId dc) = c_docker_id r \<and> dc_name dc' = c_name r \<longrightarrow> dc' = dc)"

text \<open>
  What the first loop, working on the listed object \<open>c\<close>, writes to a row \<open>x\<close> with
  that object's id; and what one pass of the loop makes of a row.
\<close>

definition row_update :: "docker_container list \<Rightarrow> container \<Rightarrow> container \<Rightarrow> container" where
  "row_update dockerContainers c x =
     (case find_docker dockerContainers c of
        Some dc \<Rightarrow>
          (let x1 = (if c_status c \<noteq> dc_status dc then x\<lparr>c_status := dc_status dc\<rparr> else x)
           in if falsy_str (c_docker_id c) \<and> dc_dockerId dc \<noteq> []
              then x1\<lparr>c_docker_id := Some (dc_dockerId dc)\<rparr> else x1)
      | None \<Rightarrow> (if c_status c \<noteq> ''stopped'' then x\<lparr>c_status := ''stopped''\<rparr> else x))"

definition sync_row :: "docker_container list \<Rightarrow> container \<Rightarrow> container" where
  "sync_row dockerContainers r = row_update dockerContainers (new_Container r) r"

text \<open>A listed object on which the first loop has nothing to write.\<close>

definition settled :: "docker_container list \<Rightarrow> container \<Rightarrow> bool" where
  "settled dockerContainers c =
     (case find_docker dockerContainers c of
        Some dc \<Rightarrow> c_status c = dc_status dc
                   \<and> \<not> (falsy_str (c_docker_id c) \<and> dc_dockerId dc \<noteq> [])
      | None \<Rightarrow> c_status c = ''stopped'')"

text \<open>An engine object the second loop passes over: known to a listed object, or not ours.\<close>

definition known :: "container list \<Rightarrow> docker_container \<Rightarrow> bool" where
  "known dbContainers dockerContainer =
     (find (\<lambda>dc. c_docker_id dc = Some (dc_dockerId dockerContainer) \<or>
                  c_name dc = dc_name dockerContainer) dbContainers \<noteq> None
      \<or> map_of (dc_labels dockerContainer) ''nexus-crate-flow'' \<noteq> Some ''true'')"

text \<open>The row an auto-import leaves for an engine object.\<close>

definition imported_row :: "string \<Rightarrow> docker_container \<Rightarrow> container" where
  "imported_row newId dc =
     \<lparr>c_id = newId, c_name = dc_name dc, c_docker_id = Some (dc_dockerId dc),
      c_image = dc_image dc, c_status = dc_status dc,
      c_folder_path = ''/home/containers/'' @ dc_name dc, c_startup_script = None,
      c_created_by = 1\<rparr>"

text \<open>The rows a run of auto-imports leaves, newest first, for the identifiers from \<open>k\<close> on.\<close>

fun imported_rows :: "(nat \<Rightarrow> string) \<Rightarrow> nat \<Rightarrow> docker_container list \<Rightarrow> container list" where
  "imported_rows ids k [] = []"
| "imported_rows ids k (dc # ds) = imported_rows ids (Suc k) ds @ [imported_row (ids k) dc]"

subsection \<open>Example data for Sync\<close>

text \<open>Identifiers for new records: \<open>n\<close>, \<open>nx\<close>, \<open>nxx\<close>, and so on.\<close>

definition ex_ids :: "nat \<Rightarrow> string" where
  "ex_ids k = CHR ''n'' # replicate k CHR ''x''"

text \<open>
  A registry of two records and an engine with two objects: \<open>web\<close> is known to the
  registry by name only, \<open>db\<close> has no engine object any more, and \<open>cache\<close> carries the
  ownership label and has no record.
\<close>

definition ex_sync_db :: database where
  "ex_sync_db =
     \<lparr>containers =
        [\<lparr>c_id = ''c1'', c_name = ''web'', c_docker_id = None, c_image = ''nginx'',
          c_status = ''created'', c_folder_path = ''/home/containers/c1'',
          c_startup_script = None, c_created_by = 1\<rparr>,
         \<lparr>c_id = ''c2'', c_name = ''db'', c_docker_id = Some ''e9'', c_image = ''postgres'',
          c_status = ''running'', c_folder_path = ''/home/containers/c2'',
          c_startup_script = None, c_created_by = 1\<rparr>],
      container_logs = [], container_settings = []\<rparr>"

definition ex_sync_objects :: "docker_container list" where
  "ex_sync_objects =
     [\<lparr>dc_dockerId = ''e1'', dc_name = ''web'', dc_image = ''nginx'', dc_status = ''running'',
       dc_labels = []\<rparr>,
      \<lparr>dc_dockerId = ''e3'', dc_name = ''cache'', dc_image = ''redis'', dc_status = ''exited'',
       dc_labels = [(''nexus-crate-flow'', ''true'')]\<rparr>]"

definition engine_listing :: "docker_container list \<Rightarrow> engine" where
  "engine_listing dcs =
     \<lparr>e_listContainers = Inr dcs,
      e_getContainer = (\<lambda>r. Inl (Error ''No such container'')),
      e_restartContainer = (\<lambda>r. None)\<rparr>"

text \<open>
  A name that was reused: the record \<open>web\<close> refers to the engine object \<open>e2\<close>, which was
  renamed to \<open>web-old\<close>; a newer engine object \<open>e1\<close> now bears the name \<open>web\<close>.
\<close>

definition ex_renamed_record :: container where
  "ex_renamed_record =
     \<lparr>c_id = ''c1'', c_name = ''web'', c_docker_id = Some ''e2'', c_image = ''nginx'',
      c_status = ''running'', c_folder_path = ''/home/containers/c1'', c_startup_script = None,
      c_created_by = 1\<rparr>"

definition ex_object_new :: docker_container where
  "ex_object_new = \<lparr>dc_dockerId = ''e1'', dc_name = ''web'', dc_image = ''nginx'',
                     dc_status = ''exited'', dc_labels = []\<rparr>"

definition ex_object_old :: docker_container where
  "ex_object_old = \<lparr>dc_dockerId = ''e2'', dc_name = ''web-old'', dc_image = ''nginx'',
                     dc_status = ''running'', dc_labels = []\<rparr>"

text \<open>
  A registry of 1001 records: a thousand records without engine object, all stopped,
  and, older than all of them, the record \<open>c0\<close> of the running engine object \<open>e1\<close>.
\<close>

definition ex_filler :: "container list" where
  "ex_filler =
     map (\<lambda>k. \<lparr>c_id = CHR ''f'' # replicate k CHR ''x'', c_name = CHR ''f'' # replicate k CHR ''x'',
                c_docker_id = None, c_image = ''busybox'', c_status = ''stopped'',
                c_folder_path = ''/home/containers/f'', c_startup_script = None,
                c_created_by = 1\<rparr>) [0..<1000]"

definition ex_old_record :: container where
  "ex_old_record =
     \<lparr>c_id = ''c0'', c_name = ''web'', c_docker_id = Some ''e1'', c_image = ''nginx'',
      c_status = ''stopped'', c_folder_path = ''/home/containers/c0'', c_startup_script = None,
      c_created_by = 1\<rparr>"

definition ex_big_db :: database where
  "ex_big_db = \<lparr>containers = ex_filler @ [ex_old_record], container_logs = [],
                 container_settings = []\<rparr>"

definition ex_object_web :: docker_container where
  "ex_object_web = \<lparr>dc_dockerId = ''e1'', dc_name = ''web'', dc_image = ''nginx'',
                     dc_status = ''running'', dc_labels = []\<rparr>"

text \<open>
  A registry of two records for the engine object \<open>e1\<close>, which bears the name \<open>web\<close>:
  the older record \<open>api\<close> refers to it by its \<open>docker_id\<close>, and the newer record
  \<open>web\<close>, created under the name the object now bears, has no \<open>docker_id\<close> yet.
\<close>

definition ex_linked_record :: container where
  "ex_linked_record =
     \<lparr>c_id = ''c1'', c_name = ''api'', c_docker_id = Some ''e1'', c_image = ''nginx'',
      c_status = ''stopped'', c_folder_path = ''/home/containers/c1'', c_startup_script = None,
      c_created_by = 1\<rparr>"

definition ex_unlinked_record :: "string \<Rightarrow> container" where
  "ex_unlinked_record status =
     \<lparr>c_id = ''c2'', c_name = ''web'', c_docker_id = None, c_image = ''nginx'',
      c_status = status, c_folder_path = ''/home/containers/c2'', c_startup_script = None,
      c_created_by = 1\<rparr>"

definition ex_two_for_one_db :: "string \<Rightarrow> database" where
  "ex_two_for_one_db status = \<lparr>containers = [ex_unlinked_record status, ex_linked_record],
                                container_logs = [], container_settings = []\<rparr>"

text \<open>The result of a call that returned, if it did.\<close>

definition projr_opt :: "'e + 'a \<Rightarrow> 'a option" where
  "projr_opt v = (case v of Inl e \<Rightarrow> None | Inr x \<Rightarrow> Some x)"

section \<open>Properties\<close>

subsection \<open>CPU percent\<close>






subsection \<open>Retention cleanup\<close>

lemma map_of_unlink: "n \<noteq> file \<Longrightarrow> map_of (unlink file dir) n = map_of dir n"
  by (induction dir) (auto simp: unlink_def)

lemma cleanup_files_keeps:
  "\<not> includes_str n ''.log.'' \<Longrightarrow>
   map_of (fst (cleanup_files cutoff files (dir, k))) n = map_of dir n"
proof (induction files arbitrary: dir k)
  case Nil
  then show ?case by simp
next
  case (Cons fl files)
  show ?case
  proof (cases "map_of dir fl")
    case None
    then show ?thesis by simp
  next
    case (Some st)
    show ?thesis
    proof (cases "f_mtime st < cutoff \<and> includes_str fl ''.log.''")
      case True
      with Cons.prems have "n \<noteq> fl" by auto
      with True Some Cons show ?thesis by (simp add: map_of_unlink)
    next
      case False
      with Some Cons show ?thesis by auto
    qed
  qed
qed

lemma cleanup_dirs_keeps:
  "\<not> includes_str n ''.log.'' \<Longrightarrow>
   lookup_file (fst (cleanup_dirs cutoff fs k)) d n = lookup_file fs d n"
proof (induction fs arbitrary: k)
  case Nil
  then show ?case by simp
next
  case (Cons e fs)
  obtain cd dir where e: "e = (cd, dir)" by (cases e)
  show ?case
  proof (cases "startsWith cd ''container-''")
    case False
    with Cons e show ?thesis
      by (simp add: lookup_file_def split: prod.splits) (metis fst_conv)
  next
    case True
    obtain dir' c where cf: "cleanup_files cutoff (map fst dir) (dir, k) = (dir', c)"
      by (cases "cleanup_files cutoff (map fst dir) (dir, k)")
    have "map_of dir' n = map_of dir n"
      using cleanup_files_keeps [OF Cons.prems, of cutoff "map fst dir" dir k] cf by simp
    with Cons e True cf show ?thesis
      by (simp add: lookup_file_def split: prod.splits) (metis fst_conv)
  qed
qed

lemma active_names:
  "\<not> includes_str ''application.log'' ''.log.''"
  "\<not> includes_str ''startup.log'' ''.log.''"
  "\<not> includes_str ''error.log'' ''.log.''"
  "\<not> includes_str ''info.log'' ''.log.''"
  by simp_all

text \<open>
  Claim C10. Retention cleanup never deletes an active log file: for every tree, every
  retention period, every clock and every time zone of the host, a file whose name does
  not include \<open>.log.\<close> is the same after \<open>cleanupOldLogs\<close> as before, whatever its
  modification time; in particular \<open>application.log\<close>, \<open>startup.log\<close>,
  \<open>error.log\<close> and \<open>info.log\<close> of every container directory.
\<close>

theorem cleanupOldLogs_keeps_active:
  "(\<forall>d n. \<not> includes_str n ''.log.'' \<longrightarrow>
      lookup_file (fst (cleanupOldLogs daysBefore retentionDays now fs)) d n = lookup_file fs d n)
   \<and> (\<forall>d. lookup_file (fst (cleanupOldLogs daysBefore retentionDays now fs)) d ''application.log''
            = lookup_file fs d ''application.log''
        \<and> lookup_file (fst (cleanupOldLogs daysBefore retentionDays now fs)) d ''startup.log''
            = lookup_file fs d ''startup.log''
        \<and> lookup_file (fst (cleanupOldLogs daysBefore retentionDays now fs)) d ''error.log''
            = lookup_file fs d ''error.log''
        \<and> lookup_file (fst (cleanupOldLogs daysBefore retentionDays now fs)) d ''info.log''
            = lookup_file fs d ''info.log'')"
  by (simp add: cleanupOldLogs_def cleanup_dirs_keeps active_names)

theorem cleanupOldLogs_keeps_active_witness:
  "\<not> includes_str ''application.log'' ''.log.''
   \<and> lookup_file (fst (cleanupOldLogs daysBefore_utc 30 4000000000
        [(''container-c1'',
           [(''application.log'', \<lparr>f_content = ''x'', f_mtime = 0\<rparr>),
            (''application.log.2026-01-01T00-00-00-000Z'', \<lparr>f_content = ''old'', f_mtime = 544000000\<rparr>),
            (''application.log.2026-02-05T00-00-00-000Z'', \<lparr>f_content = ''new'', f_mtime = 3568000000\<rparr>)])]))
        ''container-c1'' ''application.log'' = Some \<lparr>f_content = ''x'', f_mtime = 0\<rparr>
   \<and> cleanupOldLogs daysBefore_utc 30 4000000000
        [(''container-c1'',
           [(''application.log'', \<lparr>f_content = ''x'', f_mtime = 0\<rparr>),
            (''application.log.2026-01-01T00-00-00-000Z'', \<lparr>f_content = ''old'', f_mtime = 544000000\<rparr>),
            (''application.log.2026-02-05T00-00-00-000Z'', \<lparr>f_content = ''new'', f_mtime = 3568000000\<rparr>)])]
      = ([(''container-c1'',
           [(''application.log'', \<lparr>f_content = ''x'', f_mtime = 0\<rparr>),
            (''application.log.2026-02-05T00-00-00-000Z'', \<lparr>f_content = ''new'', f_mtime = 3568000000\<rparr>)])], 1)"
proof -
  have a: "\<not> includes_str ''application.log'' ''.log.''" by simp
  have c: "cleanupOldLogs daysBefore_utc 30 4000000000
        [(''container-c1'',
           [(''application.log'', \<lparr>f_content = ''x'', f_mtime = 0\<rparr>),
            (''application.log.2026-01-01T00-00-00-000Z'', \<lparr>f_content = ''old'', f_mtime = 544000000\<rparr>),
            (''application.log.2026-02-05T00-00-00-000Z'', \<lparr>f_content = ''new'', f_mtime = 3568000000\<rparr>)])]
      = ([(''container-c1'',
           [(''application.log'', \<lparr>f_content = ''x'', f_mtime = 0\<rparr>),
            (''application.log.2026-02-05T00-00-00-000Z'', \<lparr>f_content = ''new'', f_mtime = 3568000000\<rparr>)])], 1)"
    by (simp add: cleanupOldLogs_def daysBefore_utc_def startsWith_def unlink_def)
  from a c cleanupOldLogs_keeps_active [of daysBefore_utc 30 4000000000 "[(''container-c1'',
           [(''application.log'', \<lparr>f_content = ''x'', f_mtime = 0\<rparr>),
            (''application.log.2026-01-01T00-00-00-000Z'', \<lparr>f_content = ''old'', f_mtime = 544000000\<rparr>),
            (''application.log.2026-02-05T00-00-00-000Z'', \<lparr>f_content = ''new'', f_mtime = 3568000000\<rparr>)])]"]
  show ?thesis by (simp add: lookup_file_def)
qed

subsection \<open>Health monitor and restart\<close>

lemma findById_id: "findById db i = Some c \<Longrightarrow> c_id c = i"
  by (auto simp: findById_def new_Container_def find_Some_iff)

lemma updateStatus_settings [simp]:
  "container_settings (snd (updateStatus c st db)) = container_settings db"
  by (simp add: updateStatus_def)

lemma updateStatus_id [simp]: "c_id (fst (updateStatus c st db)) = c_id c"
  by (simp add: updateStatus_def)

lemma addLog_settings [simp]: "container_settings (addLog c m t db) = container_settings db"
  by (simp add: addLog_def)

lemma addLog_containers [simp]: "containers (addLog c m t db) = containers db"
  by (simp add: addLog_def)

lemma findById_addLog [simp]: "findById (addLog c m t db) i = findById db i"
  by (simp add: findById_def)

lemma restart_catch_simps [simp]:
  "restart_calls (snd (restart_catch e i s)) = restart_calls s"
  "container_settings (ds_db (snd (restart_catch e i s))) = container_settings (ds_db s)"
  "fst (restart_catch e i s) = Inl e"
  by (simp_all add: restart_catch_def split: option.splits)

lemma restartContainer_calls:
  "restart_calls (snd (restartContainer eng i s)) = restart_calls s @ [i]"
  by (simp add: restartContainer_def Let_def case_prod_beta split: option.splits)

lemma restartContainer_settings:
  "container_settings (ds_db (snd (restartContainer eng i s))) = container_settings (ds_db s)"
  by (simp add: restartContainer_def Let_def case_prod_beta split: option.splits)

lemma handle_unhealthy_settings:
  "container_settings (ds_db (snd (handle_unhealthy eng c s))) = container_settings (ds_db s)"
  by (simp add: handle_unhealthy_def Let_def case_prod_beta restartContainer_settings
      split: option.splits sum.splits)

lemma handle_unhealthy_calls:
  "\<not> auto_restart_enabled (ds_db s) (c_id c) \<Longrightarrow>
   restart_calls (snd (handle_unhealthy eng c s)) = restart_calls s"
  by (simp add: handle_unhealthy_def Let_def case_prod_beta auto_restart_enabled_def
      getSettings_def split: option.splits sum.splits)

lemma handle_unhealthy_calls_other:
  "restart_calls (snd (handle_unhealthy eng c s)) = restart_calls s \<or>
   restart_calls (snd (handle_unhealthy eng c s)) = restart_calls s @ [c_id c]"
  by (simp add: handle_unhealthy_def Let_def case_prod_beta restartContainer_calls
      split: option.splits sum.splits)

lemma monitor_one_settings:
  "container_settings (ds_db (snd (monitor_one eng c s))) = container_settings (ds_db s)"
  by (simp add: monitor_one_def Let_def case_prod_beta handle_unhealthy_settings
      split: option.splits sum.splits)

lemma monitor_one_calls:
  "restart_calls (snd (monitor_one eng c s)) = restart_calls s \<or>
   (restart_calls (snd (monitor_one eng c s)) = restart_calls s @ [c_id c] \<and>
    auto_restart_enabled (ds_db s) (c_id c))"
proof (cases "auto_restart_enabled (ds_db s) (c_id c)")
  case True
  then show ?thesis
    using handle_unhealthy_calls_other [of eng c s]
    by (auto simp: monitor_one_def Let_def case_prod_beta split: option.splits sum.splits)
next
  case False
  then show ?thesis
    by (simp add: monitor_one_def Let_def case_prod_beta handle_unhealthy_calls
        split: option.splits sum.splits)
qed

lemma monitor_loop_settings:
  "container_settings (ds_db (snd (monitor_loop eng cs s))) = container_settings (ds_db s)"
  by (induction cs arbitrary: s) (simp_all add: case_prod_beta monitor_one_settings)

lemma monitor_loop_calls:
  "\<not> auto_restart_enabled (ds_db s) i \<Longrightarrow>
   count_list (restart_calls (snd (monitor_loop eng cs s))) i = count_list (restart_calls s) i"
proof (induction cs arbitrary: s)
  case Nil
  then show ?case by simp
next
  case (Cons c cs)
  let ?s1 = "snd (monitor_one eng c s)"
  have "\<not> auto_restart_enabled (ds_db ?s1) i"
    using Cons.prems by (simp add: auto_restart_enabled_def monitor_one_settings)
  then have "count_list (restart_calls (snd (monitor_loop eng cs ?s1))) i
      = count_list (restart_calls ?s1) i"
    by (rule Cons.IH)
  moreover have "count_list (restart_calls ?s1) i = count_list (restart_calls s) i"
    using monitor_one_calls [of eng c s] Cons.prems by auto
  ultimately show ?case by (simp add: case_prod_beta)
qed

lemma monitor_ticks_settings:
  "container_settings (ds_db (monitor_ticks engs s)) = container_settings (ds_db s)"
  by (induction engs arbitrary: s) (simp_all add: monitorContainerHealth_def monitor_loop_settings)

text \<open>
  Claim C3. For every container whose settings have the auto-restart flag disabled, or
  that has no settings row, the health monitor never invokes the restart operation on
  it: over any number of monitor ticks, whatever the engine reports at each of them, the
  number of invocations of \<open>restartContainer\<close> on that container stays what it was.
\<close>

theorem monitor_never_restarts_disabled:
  assumes "\<not> auto_restart_enabled (ds_db s) containerId"
  shows "count_list (restart_calls (monitor_ticks engs s)) containerId
           = count_list (restart_calls s) containerId"
  using assms
proof (induction engs arbitrary: s)
  case Nil
  then show ?case by simp
next
  case (Cons eng engs)
  let ?s1 = "snd (monitorContainerHealth eng s)"
  have "\<not> auto_restart_enabled (ds_db ?s1) containerId"
    using Cons.prems
    by (simp add: auto_restart_enabled_def monitorContainerHealth_def monitor_loop_settings)
  then have "count_list (restart_calls (monitor_ticks engs ?s1)) containerId
      = count_list (restart_calls ?s1) containerId"
    by (rule Cons.IH)
  also have "\<dots> = count_list (restart_calls s) containerId"
    using Cons.prems by (simp add: monitorContainerHealth_def monitor_loop_calls)
  finally show ?case by simp
qed

theorem monitor_never_restarts_disabled_witness:
  "\<not> auto_restart_enabled (ds_db (ex_state False)) ''c1''
   \<and> map c_status (containers (ds_db (monitor_ticks [ex_engine_down, ex_engine_down] (ex_state False))))
       = [''stopped'']
   \<and> count_list (restart_calls (monitor_ticks [ex_engine_down, ex_engine_down] (ex_state False))) ''c1'' = 0"
proof -
  have a: "\<not> auto_restart_enabled (ds_db (ex_state False)) ''c1''"
    by (simp add: auto_restart_enabled_def ex_state_def)
  have b: "map c_status (containers (ds_db (monitor_ticks [ex_engine_down, ex_engine_down] (ex_state False))))
       = [''stopped'']"
    by (simp add: monitorContainerHealth_def list_containers_def new_Container_def monitor_one_def
        handle_unhealthy_def updateStatus_def row_exists_def addLog_def getSettings_def
        ex_state_def ex_container_def ex_engine_down_def)
  from monitor_never_restarts_disabled [OF a, of "[ex_engine_down, ex_engine_down]"]
  have "count_list (restart_calls (monitor_ticks [ex_engine_down, ex_engine_down] (ex_state False))) ''c1'' = 0"
    by (simp add: ex_state_def)
  with a b show ?thesis by simp
qed

text \<open>With the flag enabled the same tick does invoke the restart operation.\<close>

lemma monitor_restarts_enabled_example:
  "restart_calls (snd (monitorContainerHealth ex_engine_down (ex_state True))) = [''c1'']"
  by (simp add: monitorContainerHealth_def list_containers_def new_Container_def monitor_one_def
        handle_unhealthy_def updateStatus_def row_exists_def addLog_def getSettings_def
        restartContainer_def restart_catch_def findById_def
        ex_state_def ex_container_def ex_engine_down_def)

text \<open>
  The status is written only on success: whenever \<open>restartContainer\<close> fails, for
  whatever reason, the table of containers is what it was; when it succeeds on an
  existing record, the record's status is \<open>running\<close>.
\<close>

lemma restartContainer_failure_keeps_rows:
  "fst (restartContainer eng containerId s) = Inl e \<Longrightarrow>
   containers (ds_db (snd (restartContainer eng containerId s))) = containers (ds_db s)"
  by (auto simp: restartContainer_def restart_catch_def Let_def case_prod_beta
      split: option.splits if_splits)

lemma find_map_upd:
  "(\<And>r. c_id (f r) = c_id r) \<Longrightarrow> find (\<lambda>r. c_id r = i) rows = Some x \<Longrightarrow>
   find (\<lambda>r. c_id r = i) (map (\<lambda>r. if c_id r = i then f r else r) rows) = Some (f x)"
  by (induction rows) (auto split: if_splits)

lemma restartContainer_success_running:
  assumes "fst (restartContainer eng containerId s) = Inr r"
  shows "map_option c_status
           (findById (ds_db (snd (restartContainer eng containerId s))) containerId)
         = Some ''running''"
proof -
  from assms obtain c where c: "findById (ds_db s) containerId = Some c"
    by (auto simp: restartContainer_def restart_catch_def Let_def split: option.splits)
  then obtain x where x: "find (\<lambda>r. c_id r = containerId) (containers (ds_db s)) = Some x"
    by (auto simp: findById_def)
  have i: "c_id c = containerId" using c by (rule findById_id)
  have "find (\<lambda>r. c_id r = containerId)
          (map (\<lambda>r. if c_id r = containerId then r\<lparr>c_status := ''running''\<rparr> else r)
             (containers (ds_db s)))
      = Some (x\<lparr>c_status := ''running''\<rparr>)"
    using x by (intro find_map_upd) simp_all
  then have u: "map_option c_status (findById (snd (updateStatus c ''running'' (ds_db s))) containerId)
      = Some ''running''"
    by (simp add: findById_def updateStatus_def i new_Container_def)
  from assms c obtain d where d: "c_docker_id c = Some d" "d \<noteq> []" "e_restartContainer eng d = None"
    by (auto simp: restartContainer_def restart_catch_def Let_def split: option.splits if_splits)
  have "containers (ds_db (snd (restartContainer eng containerId s)))
      = containers (snd (updateStatus c ''running'' (ds_db s)))"
    using c d
    by (simp add: restartContainer_def Let_def case_prod_beta updateStatus_def addLog_def
        split: option.splits)
  with u show ?thesis by (simp add: findById_def)
qed

text \<open>
  Claim C4. The restart operation is atomic on failure: when the record exists, has a
  \<open>docker_id\<close> and the engine's restart call fails, the error is re-raised to the
  caller, the table of containers (and with it the record's status) is unchanged, and
  the log gains the \<open>restart initiated\<close> entry followed by an entry of type
  \<open>error\<close> that carries the failure's message.
\<close>

theorem restartContainer_failure_atomic:
  assumes "findById (ds_db s) containerId = Some container"
    and "c_docker_id container = Some docker_id" and "docker_id \<noteq> []"
    and "e_restartContainer eng docker_id = Some error"
  shows "restartContainer eng containerId s =
     (Inl error,
      s\<lparr>ds_db := (ds_db s)\<lparr>container_logs := container_logs (ds_db s) @
           [\<lparr>l_container_id = containerId, l_content = ''Container restart initiated'',
              l_type = ''info''\<rparr>,
            \<lparr>l_container_id = containerId,
              l_content = ''Container restart failed: '' @ message error,
              l_type = ''error''\<rparr>]\<rparr>,
        restart_calls := restart_calls s @ [containerId]\<rparr>)"
proof -
  have i: "c_id container = containerId"
    using assms(1) by (rule findById_id)
  show ?thesis
    using assms i
    by (simp add: restartContainer_def restart_catch_def Let_def) (simp add: addLog_def)
qed

theorem restartContainer_failure_atomic_witness:
  "findById (ds_db (ex_state True)) ''c1'' = Some ex_container
   \<and> c_docker_id ex_container = Some ''e1''
   \<and> e_restartContainer ex_engine_down ''e1'' = Some (Error ''engine fault'')
   \<and> fst (restartContainer ex_engine_down ''c1'' (ex_state True)) = Inl (Error ''engine fault'')
   \<and> containers (ds_db (snd (restartContainer ex_engine_down ''c1'' (ex_state True)))) = [ex_container]
   \<and> container_logs (ds_db (snd (restartContainer ex_engine_down ''c1'' (ex_state True)))) =
       [\<lparr>l_container_id = ''c1'', l_content = ''Container restart initiated'', l_type = ''info''\<rparr>,
        \<lparr>l_container_id = ''c1'', l_content = ''Container restart failed: engine fault'',
          l_type = ''error''\<rparr>]"
proof -
  have a: "findById (ds_db (ex_state True)) ''c1'' = Some ex_container"
    by (simp add: findById_def ex_state_def new_Container_def ex_container_def)
  have b: "c_docker_id ex_container = Some ''e1''" by (simp add: ex_container_def)
  have c: "''e1'' \<noteq> []" by simp
  have d: "e_restartContainer ex_engine_down ''e1'' = Some (Error ''engine fault'')"
    by (simp add: ex_engine_down_def)
  from restartContainer_failure_atomic [OF a b c d] a b d
  show ?thesis by (simp add: ex_state_def)
qed

subsection \<open>Appending and tailing\<close>

lemma lookup_file_mkdir [simp]: "lookup_file (fs_mkdir d fs) d' n = lookup_file fs d' n"
  by (auto simp: fs_mkdir_def lookup_file_def map_of_append map_add_def split: option.splits)

lemma map_of_mkdir: "map_of (fs_mkdir d fs) d \<noteq> None"
  by (auto simp: fs_mkdir_def map_of_append map_add_def split: option.splits)

lemma map_of_mkdir_other: "map_of fs d' \<noteq> None \<Longrightarrow> map_of (fs_mkdir d fs) d' \<noteq> None"
  by (auto simp: fs_mkdir_def map_of_append map_add_def split: option.splits)

lemma fs_writeFile_ok:
  "map_of fs d \<noteq> None \<Longrightarrow> \<exists>fs'. fs_writeFile d n c now fs = Inr fs' \<and>
     (\<forall>d' n'. lookup_file fs' d' n' =
        (if d' = d \<and> n' = n then Some \<lparr>f_content = c, f_mtime = now\<rparr> else lookup_file fs d' n'))
     \<and> (\<forall>d'. map_of fs d' \<noteq> None \<longrightarrow> map_of fs' d' \<noteq> None)"
  by (auto simp: fs_writeFile_def lookup_file_def update_conv' split: option.splits)

lemma fs_appendFile_ok:
  "map_of fs d \<noteq> None \<Longrightarrow> \<exists>fs'. fs_appendFile d n c now fs = Inr fs' \<and>
     (\<forall>d' n'. lookup_file fs' d' n' =
        (if d' = d \<and> n' = n then Some \<lparr>f_content = file_content fs d n @ c, f_mtime = now\<rparr>
         else lookup_file fs d' n'))"
  by (auto simp: fs_appendFile_def lookup_file_def file_content_def update_conv' Let_def
      split: option.splits)

lemma create_default_files_ok:
  "map_of fs d \<noteq> None \<Longrightarrow> \<exists>fs'. create_default_files d names now fs = Inr fs' \<and>
     map_of fs' d \<noteq> None \<and> (\<forall>d' n'. file_content fs' d' n' = file_content fs d' n')"
proof (induction names arbitrary: fs)
  case Nil
  then show ?case by simp
next
  case (Cons a names)
  show ?case
  proof (cases "lookup_file fs d a \<noteq> None")
    case True
    with Cons show ?thesis by simp
  next
    case False
    from fs_writeFile_ok [OF Cons.prems, of a "[]" now]
    obtain fs1 where w: "fs_writeFile d a [] now fs = Inr fs1"
      and l: "\<forall>d' n'. lookup_file fs1 d' n' =
        (if d' = d \<and> n' = a then Some \<lparr>f_content = [], f_mtime = now\<rparr> else lookup_file fs d' n')"
      and m: "\<forall>d'. map_of fs d' \<noteq> None \<longrightarrow> map_of fs1 d' \<noteq> None"
      by blast
    from m Cons.prems have "map_of fs1 d \<noteq> None" by blast
    from Cons.IH [OF this]
    obtain fs' where r: "create_default_files d names now fs1 = Inr fs'" "map_of fs' d \<noteq> None"
      "\<forall>d' n'. file_content fs' d' n' = file_content fs1 d' n'"
      by blast
    have "\<forall>d' n'. file_content fs1 d' n' = file_content fs d' n'"
      using l False by (auto simp: file_content_def)
    with r w False show ?thesis by simp
  qed
qed

lemma createContainerLogDirectory_ok:
  "\<exists>fs'. createContainerLogDirectory cid now fs = Inr fs' \<and>
     map_of fs' (getContainerLogPath cid) \<noteq> None \<and>
     (\<forall>d' n'. file_content fs' d' n' = file_content fs d' n')"
proof -
  from create_default_files_ok [OF map_of_mkdir, of "getContainerLogPath cid"
      "[''application.log'', ''startup.log'', ''error.log'']" now fs]
  show ?thesis
    by (auto simp: createContainerLogDirectory_def file_content_def)
qed

lemma writeLog_ok:
  "\<exists>ls' db'. writeLog ts now cid c lt (ls, db) = (Inr (), ls', db') \<and>
     file_content (ls_fs ls') (getContainerLogPath cid) (log_file_name lt)
       = file_content (ls_fs ls) (getContainerLogPath cid) (log_file_name lt) @ log_line ts c \<and>
     lookup_file (ls_fs ls') (getContainerLogPath cid) (log_file_name lt) \<noteq> None"
proof -
  from createContainerLogDirectory_ok [of cid now "ls_fs ls"]
  obtain fs1 where a: "createContainerLogDirectory cid now (ls_fs ls) = Inr fs1"
    "map_of fs1 (getContainerLogPath cid) \<noteq> None"
    "\<forall>d' n'. file_content fs1 d' n' = file_content (ls_fs ls) d' n'"
    by blast
  from fs_appendFile_ok [OF a(2), of "log_file_name lt" "log_line ts c" now]
  obtain fs2 where b: "fs_appendFile (getContainerLogPath cid) (log_file_name lt) (log_line ts c) now fs1 = Inr fs2"
    "\<forall>d' n'. lookup_file fs2 d' n' =
        (if d' = getContainerLogPath cid \<and> n' = log_file_name lt
         then Some \<lparr>f_content = file_content fs1 (getContainerLogPath cid) (log_file_name lt) @ log_line ts c, f_mtime = now\<rparr>
         else lookup_file fs1 d' n')"
    by blast
  show ?thesis
    using a b by (simp add: writeLog_def notifyLogUpdate_def file_content_def split: option.splits)
qed

lemma append_all_ok:
  "\<exists>ls' db'. append_all cid lt es (ls, db) = (Inr (), ls', db') \<and>
     file_content (ls_fs ls') (getContainerLogPath cid) (log_file_name lt)
       = file_content (ls_fs ls) (getContainerLogPath cid) (log_file_name lt)
         @ concat (map (\<lambda>e. log_line (fst e) (snd (snd e))) es)"
proof (induction es arbitrary: ls db)
  case Nil
  then show ?case by simp
next
  case (Cons e es)
  obtain ts now c where e: "e = (ts, now, c)" by (cases e)
  from writeLog_ok [of ts now cid c lt ls db]
  obtain ls1 db1 where w: "writeLog ts now cid c lt (ls, db) = (Inr (), ls1, db1)"
    "file_content (ls_fs ls1) (getContainerLogPath cid) (log_file_name lt)
       = file_content (ls_fs ls) (getContainerLogPath cid) (log_file_name lt) @ log_line ts c"
    by blast
  from Cons.IH [of ls1 db1] w e show ?case by auto
qed

lemma js_split_not_Nil: "js_split sep s \<noteq> []"
  by (induction s) (auto split: list.splits)

lemma js_split_line:
  "sep \<notin> set l \<Longrightarrow> js_split sep (l @ sep # rest) = l # js_split sep rest"
  by (induction l) (auto split: list.splits)

lemma js_split_lines:
  "\<forall>l\<in>set ls. sep \<notin> set l \<Longrightarrow> js_split sep (concat (map (\<lambda>l. l @ [sep]) ls)) = ls @ [[]]"
  by (induction ls) (simp_all add: js_split_line)

lemma trimStart_Nil:
  "[] \<notin> set ws \<Longrightarrow> trimStart ws s = [] \<Longrightarrow> set s \<subseteq> \<Union> (set ` set ws)"
proof (induction ws s rule: trimStart.induct)
  case (1 ws)
  then show ?case by simp
next
  case (2 ws c cs)
  show ?case
  proof (cases "find (\<lambda>w. prefix w (c # cs)) ws")
    case None
    with 2(3) show ?thesis by simp
  next
    case (Some w)
    then have w: "w \<in> set ws" "prefix w (c # cs)"
      by (auto simp: find_Some_iff)
    with 2(2) have "w \<noteq> []" by auto
    with w(2) obtain w' where w': "w = c # w'" "prefix w' cs"
      by (cases w) auto
    then have cs: "cs = w' @ drop (length w - 1) cs"
      by (auto simp: prefix_def)
    from 2(3) Some have "trimStart ws (drop (length w - 1) cs) = []" by simp
    from 2(1) [OF Some 2(2) this] have "set (drop (length w - 1) cs) \<subseteq> \<Union> (set ` set ws)" .
    moreover have "set w \<subseteq> \<Union> (set ` set ws)" using w(1) by auto
    moreover have "set (c # cs) = set w \<union> set (drop (length w - 1) cs)"
      using cs w'(1) by (metis set_append append_Cons)
    ultimately show ?thesis by simp
  qed
qed

lemma trimStart_keeps:
  assumes "[] \<notin> set ws" and "c \<notin> \<Union> (set ` set ws)"
  shows "trimStart ws (c # s) = c # s"
proof -
  have "find (\<lambda>w. prefix w (c # s)) ws = None"
    unfolding find_None_iff
  proof (intro notI, elim exE conjE)
    fix w assume w: "w \<in> set ws" "prefix w (c # s)"
    with assms(1) have "w \<noteq> []" by auto
    with w(2) have "c \<in> set w" by (cases w) auto
    with w(1) assms(2) show False by auto
  qed
  then show ?thesis by simp
qed

lemma trim_Nil [simp]: "trim [] = []"
  by (simp add: trim_def)

lemma trim_nonblank:
  assumes "c \<notin> \<Union> (set ` set white_space)"
  shows "trim (c # s) \<noteq> []"
proof
  assume t: "trim (c # s) = []"
  have n: "[] \<notin> set white_space" by (simp add: white_space_def)
  have n': "[] \<notin> set (map rev white_space)" by (simp add: white_space_def)
  from trimStart_keeps [OF n assms] t
  have "trimStart (map rev white_space) (rev s @ [c]) = []"
    by (simp add: trim_def del: trimStart.simps)
  from trimStart_Nil [OF n' this] have "c \<in> \<Union> (set ` set (map rev white_space))" by auto
  then have "c \<in> \<Union> (set ` set white_space)" by auto
  with assms show False by simp
qed

lemma trim_bracket: "trim (CHR ''['' # s) \<noteq> []"
  by (rule trim_nonblank) (simp add: white_space_def)

lemma dot_star_end_iff:
  "dot_star_end s \<longleftrightarrow> (\<forall>t\<in>set line_terminators. \<not> includes_str s t)"
  by (induction s) (auto simp: find_None_iff line_terminators_def)

lemma log_line_body: "log_line (fst e) (snd (snd e)) = line_body e @ [CHR 0x0A]"
  by (simp add: log_line_def line_body_def)

lemma includes_str_one: "includes_str s [c] \<longleftrightarrow> c \<in> set s"
  by (induction s) auto

lemma line_body_no_LF: "line_shaped e \<Longrightarrow> CHR 0x0A \<notin> set (line_body e)"
  by (cases e) (auto simp: line_shaped_def line_body_def includes_str_one)

lemma line_body_nonblank: "trim (line_body e) \<noteq> []"
  by (simp add: line_body_def trim_bracket)

lemma match_entry_body:
  assumes "line_shaped e"
  shows "match_entry (line_body e) = Some (fst e, snd (snd e))"
proof -
  obtain ts now c where e: "e = (ts, now, c)" by (cases e)
  from assms e have ts: "ts \<noteq> []" "\<forall>x\<in>set ts. x \<noteq> CHR '']''"
    by (auto simp: line_shaped_def)
  from assms e have c: "dot_star_end c"
    by (simp add: line_shaped_def dot_star_end_iff line_terminators_def)
  have t: "takeWhile (\<lambda>x. x \<noteq> CHR '']'') (ts @ CHR '']'' # CHR '' '' # c) = ts"
    using ts(2) by (simp add: takeWhile_tail)
  have d: "dropWhile (\<lambda>x. x \<noteq> CHR '']'') (ts @ CHR '']'' # CHR '' '' # c) = CHR '']'' # CHR '' '' # c"
    using ts(2) by (simp add: dropWhile_append1 dropWhile_append2)
  show ?thesis
    using t d ts(1) c e by (simp add: match_entry_def line_body_def)
qed

lemma parse_line_body:
  "line_shaped e \<Longrightarrow> parse_line nowIso lt (line_body e) = entry_of lt e"
  by (cases e) (simp add: parse_line_def match_entry_body entry_of_def)

lemma readLogs_of_content:
  assumes "lookup_file fs (getContainerLogPath cid) (log_file_name lt) = Some f"
    and "f_content f = concat (map (\<lambda>e. log_line (fst e) (snd (snd e))) es)"
    and "\<forall>e\<in>set es. line_shaped e"
  shows "readLogs nowIso cid lt n None fs
     = Inr (map (entry_of lt) (if 0 < n then drop (length es - nat n) es else es))"
proof -
  have c: "f_content f = concat (map (\<lambda>l. l @ [CHR 0x0A]) (map line_body es))"
    using assms(2) by (simp add: log_line_body comp_def)
  have "js_split (CHR 0x0A) (f_content f) = map line_body es @ [[]]"
    unfolding c using assms(3) by (intro js_split_lines) (auto simp: line_body_no_LF)
  then have l: "filter (\<lambda>line. trim line \<noteq> []) (js_split (CHR 0x0A) (f_content f)) = map line_body es"
    by (simp add: filter_map comp_def line_body_nonblank)
  have p: "map (parse_line nowIso lt) (map line_body es) = map (entry_of lt) es"
    using assms(3) by (simp add: parse_line_body)
  have q: "map (parse_line nowIso lt) (slice_last (nat n) (map line_body es))
      = map (entry_of lt) (drop (length es - nat n) es)"
    using assms(3) by (auto simp: slice_last_def drop_map parse_line_body dest: in_set_dropD)
  show ?thesis
    using assms(1) l p q by (simp add: readLogs_def fs_readFile_def)
qed

text \<open>
  Claim C5, as amended. For every sequence of line-shaped appends (contents that hold
  no line terminator: no line feed, carriage return, U+2028 or U+2029) to one category
  of one container whose file is missing or empty, every append succeeds. Reading with
  a tail limit \<open>n > 0\<close> then returns exactly the last \<open>n\<close> appended entries (all of
  them when there are fewer), in append order, each with its timestamp and content;
  reading with a limit of 0 or less returns every appended entry.
\<close>

theorem tail_returns_last_entries:
  assumes "\<forall>e\<in>set es. line_shaped e"
    and "file_content (ls_fs ls) (getContainerLogPath containerId) (log_file_name logType) = []"
  shows "\<exists>ls' db'. append_all containerId logType es (ls, db) = (Inr (), ls', db')
     \<and> readLogs nowIso containerId logType n None (ls_fs ls')
         = Inr (map (entry_of logType) (if 0 < n then drop (length es - nat n) es else es))"
proof -
  from append_all_ok [of containerId logType es ls db] assms(2)
  obtain ls' db' where a: "append_all containerId logType es (ls, db) = (Inr (), ls', db')"
    and c: "file_content (ls_fs ls') (getContainerLogPath containerId) (log_file_name logType)
         = concat (map (\<lambda>e. log_line (fst e) (snd (snd e))) es)"
    by auto
  have "readLogs nowIso containerId logType n None (ls_fs ls')
         = Inr (map (entry_of logType) (if 0 < n then drop (length es - nat n) es else es))"
  proof (cases "lookup_file (ls_fs ls') (getContainerLogPath containerId) (log_file_name logType)")
    case None
    with c have "concat (map (\<lambda>e. log_line (fst e) (snd (snd e))) es) = []"
      by (simp add: file_content_def)
    then have "es = []" by (cases es) (auto simp: log_line_def)
    with None show ?thesis by (simp add: readLogs_def fs_readFile_def)
  next
    case (Some f)
    with c have "f_content f = concat (map (\<lambda>e. log_line (fst e) (snd (snd e))) es)"
      by (simp add: file_content_def)
    from readLogs_of_content [OF Some this assms(1)] show ?thesis .
  qed
  with a show ?thesis by blast
qed

lemma ex_appends_run:
  "append_all ''c1'' ''startup'' ex_appends (ex_log_service, ex_database) =
     (Inr (),
      \<lparr>ls_fs = [(''container-c1'',
          [(''application.log'', \<lparr>f_content = [], f_mtime = 1\<rparr>),
           (''startup.log'',
            \<lparr>f_content = log_line ''2026-01-01T00:00:00.000Z'' ''boot ok'' @
                          log_line ''2026-01-01T00:00:01.000Z'' ''listening'', f_mtime = 2\<rparr>),
           (''error.log'', \<lparr>f_content = [], f_mtime = 1\<rparr>)])],
        ls_logStreams = [], ls_written = []\<rparr>,
      \<lparr>containers = [ex_container],
        container_logs = [\<lparr>l_container_id = ''c1'', l_content = ''boot ok'', l_type = ''startup''\<rparr>,
                          \<lparr>l_container_id = ''c1'', l_content = ''listening'', l_type = ''startup''\<rparr>],
        container_settings = []\<rparr>)"
  by (simp add: ex_appends_def ex_log_service_def ex_database_def writeLog_def
      createContainerLogDirectory_def getContainerLogPath_def log_file_name_def fs_mkdir_def
      fs_writeFile_def fs_appendFile_def lookup_file_def notifyLogUpdate_def findById_def
      new_Container_def addLog_def ex_container_def)

lemma ex_appends_shaped: "\<forall>e\<in>set ex_appends. line_shaped e"
  by (simp add: ex_appends_def line_shaped_def)

lemma ex_log_service_empty:
  "file_content (ls_fs ex_log_service) (getContainerLogPath ''c1'') (log_file_name ''startup'') = []"
  by (simp add: file_content_def lookup_file_def ex_log_service_def)

text \<open>
  The scenario of the specification: \<open>boot ok\<close> then \<open>listening\<close> appended to
  \<open>startup\<close>, tail with limit 1 returns exactly \<open>listening\<close>. With limit 0, and
  with limit -1, both entries are returned.
\<close>

theorem tail_returns_last_entries_witness:
  "line_shaped (''2026-01-01T00:00:00.000Z'', 1, ''boot ok'')
   \<and> line_shaped (''2026-01-01T00:00:01.000Z'', 2, ''listening'')
   \<and> file_content (ls_fs ex_log_service) (getContainerLogPath ''c1'') (log_file_name ''startup'') = []
   \<and> readLogs ''now'' ''c1'' ''startup'' 1 None
        (ls_fs (fst (snd (append_all ''c1'' ''startup'' ex_appends (ex_log_service, ex_database)))))
       = Inr [\<lparr>le_timestamp = ''2026-01-01T00:00:01.000Z'', le_content = ''listening'',
                le_source = ''file'', le_type = ''startup''\<rparr>]
   \<and> readLogs ''now'' ''c1'' ''startup'' (- 1) None
        (ls_fs (fst (snd (append_all ''c1'' ''startup'' ex_appends (ex_log_service, ex_database)))))
       = Inr [\<lparr>le_timestamp = ''2026-01-01T00:00:00.000Z'', le_content = ''boot ok'',
                le_source = ''file'', le_type = ''startup''\<rparr>,
              \<lparr>le_timestamp = ''2026-01-01T00:00:01.000Z'', le_content = ''listening'',
                le_source = ''file'', le_type = ''startup''\<rparr>]"
proof -
  have a: "line_shaped (''2026-01-01T00:00:00.000Z'', 1, ''boot ok'')"
    "line_shaped (''2026-01-01T00:00:01.000Z'', 2, ''listening'')"
    by (simp_all add: line_shaped_def)
  from tail_returns_last_entries [OF ex_appends_shaped ex_log_service_empty, of ex_database "''now''" 1]
  have b: "readLogs ''now'' ''c1'' ''startup'' 1 None
        (ls_fs (fst (snd (append_all ''c1'' ''startup'' ex_appends (ex_log_service, ex_database)))))
       = Inr (map (entry_of ''startup'') (drop (length ex_appends - nat 1) ex_appends))"
    by auto
  from tail_returns_last_entries [OF ex_appends_shaped ex_log_service_empty, of ex_database "''now''" "- 1"]
  have c: "readLogs ''now'' ''c1'' ''startup'' (- 1) None
        (ls_fs (fst (snd (append_all ''c1'' ''startup'' ex_appends (ex_log_service, ex_database)))))
       = Inr (map (entry_of ''startup'') ex_appends)"
    by auto
  from a b c ex_log_service_empty show ?thesis
    by (simp add: entry_of_def ex_appends_def)
qed

lemma ex_two_lines_run:
  "ls_fs (fst (snd (append_all ''c1'' ''startup'' ex_append_two_lines (ex_log_service, ex_database))))
     = [(''container-c1'',
          [(''application.log'', \<lparr>f_content = [], f_mtime = 3\<rparr>),
           (''startup.log'',
            \<lparr>f_content = ''[2026-01-01T00:00:02.000Z] stack'' @ [CHR 0x0A] @ ''trace'' @ [CHR 0x0A],
               f_mtime = 3\<rparr>),
           (''error.log'', \<lparr>f_content = [], f_mtime = 3\<rparr>)])]"
  by (simp add: ex_append_two_lines_def ex_log_service_def ex_database_def writeLog_def
      createContainerLogDirectory_def getContainerLogPath_def log_file_name_def fs_mkdir_def
      fs_writeFile_def fs_appendFile_def lookup_file_def notifyLogUpdate_def findById_def
      new_Container_def addLog_def ex_container_def log_line_def)

lemma trim_trace: "trim ''trace'' \<noteq> []"
  by (rule trim_nonblank) (simp add: white_space_def)

text \<open>
  The claim as stated fails in two ways. With tail limit 0 the guard \<open>tail > 0\<close> skips
  the slice and every entry is returned, where the last 0 entries are none. And an
  append whose content has two lines is read back as its second line alone, under the
  reader's clock, where the appended entry is the whole content under its own timestamp.
\<close>

theorem tail_limit_counterexample:
  "readLogs ''now'' ''c1'' ''startup'' 0 None
        (ls_fs (fst (snd (append_all ''c1'' ''startup'' ex_appends (ex_log_service, ex_database)))))
       = Inr [\<lparr>le_timestamp = ''2026-01-01T00:00:00.000Z'', le_content = ''boot ok'',
                le_source = ''file'', le_type = ''startup''\<rparr>,
              \<lparr>le_timestamp = ''2026-01-01T00:00:01.000Z'', le_content = ''listening'',
                le_source = ''file'', le_type = ''startup''\<rparr>]
   \<and> map (entry_of ''startup'') (slice_last 0 ex_appends) = []
   \<and> readLogs ''now'' ''c1'' ''startup'' 1 None
        (ls_fs (fst (snd (append_all ''c1'' ''startup'' ex_append_two_lines
            (ex_log_service, ex_database)))))
       = Inr [\<lparr>le_timestamp = ''now'', le_content = ''trace'', le_source = ''file'',
                le_type = ''startup''\<rparr>]
   \<and> map (entry_of ''startup'') (slice_last 1 ex_append_two_lines)
       = [\<lparr>le_timestamp = ''2026-01-01T00:00:02.000Z'',
            le_content = ''stack'' @ [CHR 0x0A] @ ''trace'', le_source = ''file'',
            le_type = ''startup''\<rparr>]"
proof -
  have a: "readLogs ''now'' ''c1'' ''startup'' 0 None
        (ls_fs (fst (snd (append_all ''c1'' ''startup'' ex_appends (ex_log_service, ex_database)))))
       = Inr [\<lparr>le_timestamp = ''2026-01-01T00:00:00.000Z'', le_content = ''boot ok'',
                le_source = ''file'', le_type = ''startup''\<rparr>,
              \<lparr>le_timestamp = ''2026-01-01T00:00:01.000Z'', le_content = ''listening'',
                le_source = ''file'', le_type = ''startup''\<rparr>]"
    by (simp add: ex_appends_run)
      (simp add: readLogs_def fs_readFile_def lookup_file_def getContainerLogPath_def
        log_file_name_def log_line_def trim_bracket parse_line_def match_entry_def
        line_terminators_def)
  have b: "map (entry_of ''startup'') (slice_last 0 ex_appends) = []"
    by (simp add: slice_last_def)
  have c: "readLogs ''now'' ''c1'' ''startup'' 1 None
        (ls_fs (fst (snd (append_all ''c1'' ''startup'' ex_append_two_lines
            (ex_log_service, ex_database)))))
       = Inr [\<lparr>le_timestamp = ''now'', le_content = ''trace'', le_source = ''file'',
                le_type = ''startup''\<rparr>]"
    by (simp add: ex_two_lines_run)
      (simp add: readLogs_def fs_readFile_def lookup_file_def getContainerLogPath_def
        log_file_name_def trim_bracket trim_trace parse_line_def match_entry_def
        slice_last_def line_terminators_def)
  have d: "map (entry_of ''startup'') (slice_last 1 ex_append_two_lines)
       = [\<lparr>le_timestamp = ''2026-01-01T00:00:02.000Z'',
            le_content = ''stack'' @ [CHR 0x0A] @ ''trace'', le_source = ''file'',
            le_type = ''startup''\<rparr>]"
    by (simp add: slice_last_def ex_append_two_lines_def entry_of_def)
  from a b c d show ?thesis by blast
qed

text \<open>
  The line separator U+2028 is no line break for \<open>split\<close>, and the dot of the second
  regular expression does not match it: an append whose content holds it is read back
  as the whole line, bracketed timestamp included, under the reader's clock. A line of
  no-break spaces alone is blank for \<open>trim\<close>.
\<close>

lemma line_separator_example:
  "\<not> line_shaped (''2026-01-01T00:00:03.000Z'', 4, ''a'' @ [CHR 0xE2, CHR 0x80, CHR 0xA8] @ ''b'')
   \<and> readLogs ''now'' ''c1'' ''startup'' 1 None
        (ls_fs (fst (snd (append_all ''c1'' ''startup'' ex_append_separator
            (ex_log_service, ex_database)))))
       = Inr [\<lparr>le_timestamp = ''now'',
                le_content = ''[2026-01-01T00:00:03.000Z] a'' @ [CHR 0xE2, CHR 0x80, CHR 0xA8] @ ''b'',
                le_source = ''file'', le_type = ''startup''\<rparr>]
   \<and> trim [CHR 0xC2, CHR 0xA0, CHR 0xC2, CHR 0xA0] = []"
proof -
  have a: "\<not> line_shaped (''2026-01-01T00:00:03.000Z'', 4, ''a'' @ [CHR 0xE2, CHR 0x80, CHR 0xA8] @ ''b'')"
    by (simp add: line_shaped_def)
  have f: "ls_fs (fst (snd (append_all ''c1'' ''startup'' ex_append_separator (ex_log_service, ex_database))))
     = [(''container-c1'',
          [(''application.log'', \<lparr>f_content = [], f_mtime = 4\<rparr>),
           (''startup.log'',
            \<lparr>f_content = ''[2026-01-01T00:00:03.000Z] a'' @ [CHR 0xE2, CHR 0x80, CHR 0xA8] @ ''b''
                 @ [CHR 0x0A], f_mtime = 4\<rparr>),
           (''error.log'', \<lparr>f_content = [], f_mtime = 4\<rparr>)])]"
    by (simp add: ex_append_separator_def ex_log_service_def ex_database_def writeLog_def
      createContainerLogDirectory_def getContainerLogPath_def log_file_name_def fs_mkdir_def
      fs_writeFile_def fs_appendFile_def lookup_file_def notifyLogUpdate_def findById_def
      new_Container_def addLog_def ex_container_def log_line_def)
  have b: "readLogs ''now'' ''c1'' ''startup'' 1 None
        (ls_fs (fst (snd (append_all ''c1'' ''startup'' ex_append_separator
            (ex_log_service, ex_database)))))
       = Inr [\<lparr>le_timestamp = ''now'',
                le_content = ''[2026-01-01T00:00:03.000Z] a'' @ [CHR 0xE2, CHR 0x80, CHR 0xA8] @ ''b'',
                le_source = ''file'', le_type = ''startup''\<rparr>]"
    by (simp add: f)
      (simp add: readLogs_def fs_readFile_def lookup_file_def getContainerLogPath_def
        log_file_name_def trim_bracket parse_line_def match_entry_def slice_last_def
        line_terminators_def)
  have c: "trim [CHR 0xC2, CHR 0xA0, CHR 0xC2, CHR 0xA0] = []"
    by (simp add: trim_def white_space_def)
  from a b c show ?thesis by blast
qed

subsection \<open>Clearing\<close>

text \<open>
  Claim C8, as amended. For every container whose log directory exists and every
  category, \<open>clearLogs\<close> succeeds, leaves that category's file empty, and changes no
  other file of the tree; the clearing is recorded as one row of type \<open>info\<close> in the
  durable store when the container's record exists (and nowhere otherwise). The
  \<open>info\<close> log file is not written: when the category is not \<open>info\<close> it is what it
  was before.
\<close>

theorem clearLogs_effect:
  assumes "map_of (ls_fs ls) (getContainerLogPath containerId) \<noteq> None"
  shows "\<exists>fs'. clearLogs now containerId logType (ls, db) =
           (Inr (), ls\<lparr>ls_fs := fs'\<rparr>,
            (case findById db containerId of
               None \<Rightarrow> db
             | Some container \<Rightarrow>
                 db\<lparr>container_logs := container_logs db @
                      [\<lparr>l_container_id = containerId, l_content = logType @ '' logs cleared'',
                         l_type = ''info''\<rparr>]\<rparr>))
       \<and> lookup_file fs' (getContainerLogPath containerId) (log_file_name logType)
           = Some \<lparr>f_content = [], f_mtime = now\<rparr>
       \<and> (\<forall>d n. \<not> (d = getContainerLogPath containerId \<and> n = log_file_name logType) \<longrightarrow>
             lookup_file fs' d n = lookup_file (ls_fs ls) d n)
       \<and> (logType \<noteq> ''info'' \<longrightarrow>
             lookup_file fs' (getContainerLogPath containerId) (log_file_name ''info'')
               = lookup_file (ls_fs ls) (getContainerLogPath containerId) (log_file_name ''info''))"
proof -
  from fs_writeFile_ok [OF assms, of "log_file_name logType" "[]" now]
  obtain fs' where w: "fs_writeFile (getContainerLogPath containerId) (log_file_name logType) [] now
        (ls_fs ls) = Inr fs'"
    and l: "\<forall>d' n'. lookup_file fs' d' n' =
        (if d' = getContainerLogPath containerId \<and> n' = log_file_name logType
         then Some \<lparr>f_content = [], f_mtime = now\<rparr> else lookup_file (ls_fs ls) d' n')"
    by blast
  have r: "clearLogs now containerId logType (ls, db) =
           (Inr (), ls\<lparr>ls_fs := fs'\<rparr>,
            (case findById db containerId of
               None \<Rightarrow> db
             | Some container \<Rightarrow>
                 db\<lparr>container_logs := container_logs db @
                      [\<lparr>l_container_id = containerId, l_content = logType @ '' logs cleared'',
                         l_type = ''info''\<rparr>]\<rparr>))"
    using w by (auto simp: clearLogs_def addLog_def dest: findById_id split: option.splits)
  have i: "logType \<noteq> ''info'' \<longrightarrow> log_file_name ''info'' \<noteq> log_file_name logType"
    by (simp add: log_file_name_def)
  from r l i show ?thesis by auto
qed

lemma clearLogs_missing_directory:
  "map_of (ls_fs ls) (getContainerLogPath containerId) = None \<Longrightarrow>
   clearLogs now containerId logType (ls, db) =
     (Inl (ENOENT (getContainerLogPath containerId @ ''/'' @ log_file_name logType)), ls, db)"
  by (simp add: clearLogs_def fs_writeFile_def)

lemma ex_clear_run:
  "clearLogs 5 ''c1'' ''startup''
     (snd (append_all ''c1'' ''startup'' ex_appends (ex_log_service, ex_database))) =
     (Inr (),
      \<lparr>ls_fs = [(''container-c1'',
          [(''application.log'', \<lparr>f_content = [], f_mtime = 1\<rparr>),
           (''startup.log'', \<lparr>f_content = [], f_mtime = 5\<rparr>),
           (''error.log'', \<lparr>f_content = [], f_mtime = 1\<rparr>)])],
        ls_logStreams = [], ls_written = []\<rparr>,
      \<lparr>containers = [ex_container],
        container_logs = [\<lparr>l_container_id = ''c1'', l_content = ''boot ok'', l_type = ''startup''\<rparr>,
                          \<lparr>l_container_id = ''c1'', l_content = ''listening'', l_type = ''startup''\<rparr>,
                          \<lparr>l_container_id = ''c1'', l_content = ''startup logs cleared'',
                            l_type = ''info''\<rparr>],
        container_settings = []\<rparr>)"
  by (simp add: ex_appends_run)
     (simp add: clearLogs_def getContainerLogPath_def log_file_name_def fs_writeFile_def
      findById_def new_Container_def addLog_def ex_container_def)

theorem clearLogs_effect_witness:
  "map_of (ls_fs (fst (snd (append_all ''c1'' ''startup'' ex_appends (ex_log_service, ex_database)))))
      (getContainerLogPath ''c1'') \<noteq> None
   \<and> fst (clearLogs 5 ''c1'' ''startup''
        (snd (append_all ''c1'' ''startup'' ex_appends (ex_log_service, ex_database)))) = Inr ()
   \<and> lookup_file (ls_fs (fst (snd (clearLogs 5 ''c1'' ''startup''
        (snd (append_all ''c1'' ''startup'' ex_appends (ex_log_service, ex_database)))))))
        (getContainerLogPath ''c1'') (log_file_name ''startup'')
       = Some \<lparr>f_content = [], f_mtime = 5\<rparr>"
proof -
  let ?st = "snd (append_all ''c1'' ''startup'' ex_appends (ex_log_service, ex_database))"
  have a: "map_of (ls_fs (fst ?st)) (getContainerLogPath ''c1'') \<noteq> None"
    by (simp add: ex_appends_run getContainerLogPath_def)
  from clearLogs_effect [OF a, of 5 "''startup''" "snd ?st"] a
  show ?thesis by auto
qed

text \<open>
  The claim as stated fails: after \<open>clearLogs\<close> on \<open>startup\<close> the durable store holds
  the audit row, and the container's directory still has no \<open>info.log\<close>: the audit entry
  did not go through \<open>writeLog\<close>.
\<close>

theorem clearLogs_audit_counterexample:
  "lookup_file (ls_fs (fst (snd (clearLogs 5 ''c1'' ''startup''
        (snd (append_all ''c1'' ''startup'' ex_appends (ex_log_service, ex_database)))))))
        (getContainerLogPath ''c1'') (log_file_name ''info'') = None
   \<and> container_logs (snd (snd (clearLogs 5 ''c1'' ''startup''
        (snd (append_all ''c1'' ''startup'' ex_appends (ex_log_service, ex_database))))))
       = [\<lparr>l_container_id = ''c1'', l_content = ''boot ok'', l_type = ''startup''\<rparr>,
          \<lparr>l_container_id = ''c1'', l_content = ''listening'', l_type = ''startup''\<rparr>,
          \<lparr>l_container_id = ''c1'', l_content = ''startup logs cleared'', l_type = ''info''\<rparr>]"
  by (simp add: ex_clear_run lookup_file_def getContainerLogPath_def log_file_name_def)

subsection \<open>Broadcast\<close>

lemma sendMessage_simps [simp]:
  "clients (sendMessage env w ev svc) = clients svc"
  "containerStreams (sendMessage env w ev svc) = containerStreams svc"
  "sent (sendMessage env w ev svc) = sent svc @ (if is_open env w then [(w, ev)] else [])"
  by (simp_all add: sendMessage_def)

lemma broadcast_loop_clients:
  "clients (broadcast_loop env cid e ws svc) = clients svc"
  by (induction ws arbitrary: svc) simp_all

lemma broadcast_loop_sent:
  "sent (broadcast_loop env cid e ws svc) =
     sent svc @ map (\<lambda>w. (w, LogEntryEvent cid e)) (filter (is_open env) ws)"
  by (induction ws arbitrary: svc) simp_all

lemma keeps_open: "is_open env w \<Longrightarrow> keeps env (w # ws) = keeps env ws"
  by (auto simp: keeps_def fun_eq_iff)

lemma keeps_closed:
  "\<not> is_open env w \<Longrightarrow> filter (keeps env ws) (removeAll w l) = filter (keeps env (w # ws)) l"
  by (induction l) (auto simp: keeps_def)

lemma keeps_self: "filter (keeps env l) l = filter (is_open env) l"
  by (rule filter_cong) (auto simp: keeps_def)

lemma keeps_Nil: "filter (keeps env []) l = l"
  by (simp add: keeps_def)

lemma broadcast_loop_streams:
  "map_of (containerStreams (broadcast_loop env cid e ws svc)) =
     (map_of (containerStreams svc))
       (cid := map_option (filter (keeps env ws)) (map_of (containerStreams svc) cid))"
proof (induction ws arbitrary: svc)
  case Nil
  show ?case by (auto simp: fun_eq_iff keeps_Nil option.map_ident split: option.splits)
next
  case (Cons w ws)
  show ?case
  proof (cases "is_open env w")
    case True
    then have "broadcast_loop env cid e (w # ws) svc
        = broadcast_loop env cid e ws (sendMessage env w (LogEntryEvent cid e) svc)"
      by simp
    then show ?thesis
      by (simp only: Cons.IH sendMessage_simps keeps_open [OF True])
  next
    case False
    then have "broadcast_loop env cid e (w # ws) svc
        = broadcast_loop env cid e ws
            (svc\<lparr>containerStreams := AList.map_entry cid (removeAll w) (containerStreams svc)\<rparr>)"
      by simp
    then show ?thesis
      by (auto simp: Cons.IH map_of_map_entry fun_eq_iff keeps_closed [OF False]
          split: option.splits)
  qed
qed

lemma status_loop_sent:
  "sent (status_loop env cid st cs svc) =
     sent svc @ map (\<lambda>c. (cl_ws c, ContainerStatusChange cid st))
                  (filter (\<lambda>c. is_open env (cl_ws c)) (map snd cs))"
  by (induction cs arbitrary: svc) simp_all

lemma status_loop_frame:
  "containerStreams (status_loop env cid st cs svc) = containerStreams svc"
  "clients (status_loop env cid st cs svc) = clients svc"
  by (induction cs arbitrary: svc) simp_all

text \<open>
  Claim C6, as amended. A log entry broadcast for a container is pushed to exactly the
  sockets of that container's subscriber set whose transport is open, in the set's
  order, and to no other connection; the sockets of the set that are not open are
  removed from it, nothing is raised, and no other set changes. A status change is
  pushed to every client of the client table (every authenticated connection) whose
  transport is open, whatever it is subscribed to; there a socket that is not open is
  skipped and nothing is removed.
\<close>

theorem broadcast_targets:
  "sent (broadcastLogEntry env containerId logEntry svc) =
     sent svc @ map (\<lambda>w. (w, LogEntryEvent containerId logEntry))
                  (filter (is_open env) (subscribers_of svc containerId))
   \<and> map_of (containerStreams (broadcastLogEntry env containerId logEntry svc)) =
       (map_of (containerStreams svc))
         (containerId := map_option (filter (is_open env)) (map_of (containerStreams svc) containerId))
   \<and> clients (broadcastLogEntry env containerId logEntry svc) = clients svc
   \<and> sent (broadcastContainerStatus env containerId status svc) =
       sent svc @ map (\<lambda>c. (cl_ws c, ContainerStatusChange containerId status))
                    (filter (\<lambda>c. is_open env (cl_ws c)) (map snd (clients svc)))
   \<and> containerStreams (broadcastContainerStatus env containerId status svc) = containerStreams svc
   \<and> clients (broadcastContainerStatus env containerId status svc) = clients svc"
proof -
  have a: "sent (broadcastLogEntry env containerId logEntry svc) =
     sent svc @ map (\<lambda>w. (w, LogEntryEvent containerId logEntry))
                  (filter (is_open env) (subscribers_of svc containerId))"
    by (simp add: broadcastLogEntry_def subscribers_of_def broadcast_loop_sent split: option.splits)
  have b: "map_of (containerStreams (broadcastLogEntry env containerId logEntry svc)) =
       (map_of (containerStreams svc))
         (containerId := map_option (filter (is_open env)) (map_of (containerStreams svc) containerId))"
    by (auto simp: broadcastLogEntry_def broadcast_loop_streams keeps_self fun_eq_iff split: option.splits)
  have c: "clients (broadcastLogEntry env containerId logEntry svc) = clients svc"
    by (simp add: broadcastLogEntry_def broadcast_loop_clients split: option.splits)
  have d: "sent (broadcastContainerStatus env containerId status svc) =
       sent svc @ map (\<lambda>c. (cl_ws c, ContainerStatusChange containerId status))
                    (filter (\<lambda>c. is_open env (cl_ws c)) (map snd (clients svc)))"
    by (simp add: broadcastContainerStatus_def status_loop_sent)
  have e: "containerStreams (broadcastContainerStatus env containerId status svc) = containerStreams svc"
    "clients (broadcastContainerStatus env containerId status svc) = clients svc"
    by (simp_all add: broadcastContainerStatus_def status_loop_frame)
  from a b c d e show ?thesis by blast
qed

theorem broadcast_targets_witness:
  "sent (broadcastLogEntry ex_ws_env ''c1'' ex_log_entry ex_ws_service) = []
   \<and> map_of (containerStreams (broadcastLogEntry ex_ws_env ''c1'' ex_log_entry ex_ws_service)) ''c1''
       = Some []
   \<and> sent (broadcastContainerStatus ex_ws_env ''c1'' ''stopped'' ex_ws_service)
       = [(1, ContainerStatusChange ''c1'' ''stopped'')]"
  using broadcast_targets [of ex_ws_env "''c1''" ex_log_entry ex_ws_service "''stopped''"]
  by (simp add: ex_ws_env_def ex_ws_service_def subscribers_of_def)

text \<open>
  The claim as stated fails for status changes: socket 1 is in no subscriber set and
  receives the status change of \<open>c1\<close>, and socket 2, subscribed to \<open>c1\<close> with its
  transport no longer open, is still in the set afterwards.
\<close>

theorem status_broadcast_counterexample:
  "sent (broadcastContainerStatus ex_ws_env ''c1'' ''stopped'' ex_ws_service)
       = [(1, ContainerStatusChange ''c1'' ''stopped'')]
   \<and> subscribers_of ex_ws_service ''c1'' = [2]
   \<and> is_open ex_ws_env 2 = False
   \<and> subscribers_of (broadcastContainerStatus ex_ws_env ''c1'' ''stopped'' ex_ws_service) ''c1'' = [2]"
  by (simp add: broadcastContainerStatus_def sendMessage_def subscribers_of_def ex_ws_env_def
      ex_ws_service_def)

subsection \<open>Messages before authentication\<close>

text \<open>
  On a connection that has not authenticated, \<open>subscribe_logs\<close>, \<open>execute_command\<close>
  and \<open>get_container_status\<close> are answered with the error event \<open>Authentication
  required\<close> and change nothing else; \<open>unsubscribe_logs\<close> is dropped without any
  event. No handler closes a socket, and a later \<open>authenticate\<close> with a valid token
  authenticates the connection.
\<close>

lemma unauthenticated_unsubscribe_silent:
  "\<not> authenticated conn \<Longrightarrow> m_type msg = Some ''unsubscribe_logs'' \<Longrightarrow>
   on_message env w (Some msg) (conn, svc, db) = (conn, svc, db)"
  by (simp add: on_message_def)

lemma unauthenticated_error:
  "\<not> authenticated conn \<Longrightarrow>
   m_type msg = Some ''subscribe_logs'' \<or> m_type msg = Some ''execute_command''
     \<or> m_type msg = Some ''get_container_status'' \<Longrightarrow>
   on_message env w (Some msg) (conn, svc, db)
     = (conn, sendError env w ''Authentication required'' svc, db)"
  by (auto simp: on_message_def)

lemma authenticate_after_rejection:
  "jwt_verify env t = Some d \<Longrightarrow> t \<noteq> [] \<Longrightarrow> m_type msg = Some ''authenticate'' \<Longrightarrow>
   m_token msg = Some t \<Longrightarrow>
   authenticated (fst (on_message env w (Some msg) (conn, svc, db)))"
  by (simp add: on_message_def handleAuthentication_def falsy_str_def)

text \<open>
  Claim C7 at a concrete input. Socket 3 is open and has not authenticated. Its
  \<open>unsubscribe_logs\<close> message leaves the connection, the service and the database as
  they were: no error event is sent, where the specification states one. The sibling
  \<open>subscribe_logs\<close> on the same connection is answered with the error event.
\<close>

theorem unauthenticated_unsubscribe_example:
  "authenticated ex_connection = False
   \<and> is_open ex_ws_env 3 = True
   \<and> on_message ex_ws_env 3 (Some (ex_message ''unsubscribe_logs''))
        (ex_connection, ex_ws_service, ex_database) = (ex_connection, ex_ws_service, ex_database)
   \<and> sent (fst (snd (on_message ex_ws_env 3 (Some (ex_message ''subscribe_logs''))
        (ex_connection, ex_ws_service, ex_database))))
       = [(3, ErrorEvent ''Authentication required'')]"
  by (simp add: on_message_def ex_message_def ex_connection_def sendError_def sendMessage_def
      ex_ws_env_def ex_ws_service_def)

subsection \<open>Sync\<close>

lemma new_Container_fields [simp]:
  "c_id (new_Container r) = c_id r" "c_name (new_Container r) = c_name r"
  "c_docker_id (new_Container r) = c_docker_id r"
  by (simp_all add: new_Container_def)

lemma find_docker_new_Container [simp]:
  "find_docker dcs (new_Container r) = find_docker dcs r"
  by (simp add: find_docker_def)

lemma row_update_id [simp]: "c_id (row_update dcs c x) = c_id x"
  by (simp add: row_update_def Let_def split: option.splits)

lemma row_update_name [simp]: "c_name (row_update dcs c x) = c_name x"
  by (simp add: row_update_def Let_def split: option.splits)

lemma sync_row_id [simp]: "c_id (sync_row dcs r) = c_id r"
  by (simp add: sync_row_def)

lemma sync_row_name [simp]: "c_name (sync_row dcs r) = c_name r"
  by (simp add: sync_row_def)

lemma row_exists_ids: "row_exists db i \<longleftrightarrow> i \<in> set (map c_id (containers db))"
  by (auto simp: row_exists_def list_ex_iff)

lemma map_id_upd:
  "(\<And>x. c_id (f x) = c_id x) \<Longrightarrow> map c_id (map (\<lambda>x. if P x then f x else x) rows) = map c_id rows"
  by (induction rows) auto

lemma updateStatus_ids [simp]:
  "map c_id (containers (snd (updateStatus c st db))) = map c_id (containers db)"
  by (simp add: updateStatus_def map_id_upd)

lemma same_id_same_row:
  "distinct (map c_id rows) \<Longrightarrow> x \<in> set rows \<Longrightarrow> r \<in> set rows \<Longrightarrow> c_id x = c_id r \<Longrightarrow> x = r"
  by (meson distinct_map inj_onD)

lemma map_upd_twice:
  "(\<And>x. c_id (f x) = c_id x) \<Longrightarrow>
   map (\<lambda>x. if c_id x = i then g x else x) (map (\<lambda>x. if c_id x = i then f x else x) rows)
   = map (\<lambda>x. if c_id x = i then g (f x) else x) rows"
  by (induction rows) auto

lemma map_upd_none: "map (\<lambda>x. if c_id x = i then x else x) rows = rows"
  by (induction rows) auto

lemma updateStatus_exists:
  "row_exists db (c_id c) \<Longrightarrow>
   updateStatus c st db =
     (c\<lparr>c_status := st\<rparr>,
      db\<lparr>containers := map (\<lambda>x. if c_id x = c_id c then x\<lparr>c_status := st\<rparr> else x) (containers db)\<rparr>)"
  by (simp add: updateStatus_def)

lemma updateDockerId_Inr:
  "row_exists db (c_id c) \<Longrightarrow> updateDockerId c d db = (Inr c', db') \<Longrightarrow>
   c' = c\<lparr>c_docker_id := Some d\<rparr> \<and>
   db' = db\<lparr>containers :=
            map (\<lambda>x. if c_id x = c_id c then x\<lparr>c_docker_id := Some d\<rparr> else x) (containers db)\<rparr>"
  by (auto simp: updateDockerId_def split: if_splits)

lemma sync_one_effect:
  assumes ex: "row_exists db (c_id c)"
    and s: "sync_one dcs c db = (Inr (c', sy, up), db1)"
  shows "containers db1 = map (\<lambda>x. if c_id x = c_id c then row_update dcs c x else x) (containers db)
     \<and> c' = row_update dcs c c"
proof (cases "find_docker dcs c")
  case None
  show ?thesis
  proof (cases "c_status c = ''stopped''")
    case True
    with None have ru: "\<And>x. row_update dcs c x = x" by (simp add: row_update_def)
    from True None s have "c' = c" "db1 = db" by (simp_all add: sync_one_def)
    then show ?thesis by (simp add: ru map_upd_none cong: if_cong)
  next
    case False
    with None have ru: "\<And>x. row_update dcs c x = x\<lparr>c_status := ''stopped''\<rparr>"
      by (simp add: row_update_def)
    from False None s ex have "c' = c\<lparr>c_status := ''stopped''\<rparr>"
      "containers db1 = map (\<lambda>x. if c_id x = c_id c then x\<lparr>c_status := ''stopped''\<rparr> else x)
          (containers db)"
      by (auto simp: sync_one_def updateStatus_exists addLog_def)
    then show ?thesis by (simp add: ru cong: if_cong)
  qed
next
  case (Some dc)
  define c1 where "c1 = (if c_status c \<noteq> dc_status dc then c\<lparr>c_status := dc_status dc\<rparr> else c)"
  define db1' where "db1' = (if c_status c \<noteq> dc_status dc
      then db\<lparr>containers := map (\<lambda>x. if c_id x = c_id c then x\<lparr>c_status := dc_status dc\<rparr> else x)
                 (containers db)\<rparr> else db)"
  have c1: "c_id c1 = c_id c" "c_docker_id c1 = c_docker_id c" by (simp_all add: c1_def)
  have ids1: "map c_id (containers db1') = map c_id (containers db)"
    by (simp add: db1'_def map_id_upd)
  have ex1: "row_exists db1' (c_id c)"
    using ex by (simp only: row_exists_ids ids1)
  have rows1: "containers db1' = map (\<lambda>x. if c_id x = c_id c
        then (if c_status c \<noteq> dc_status dc then x\<lparr>c_status := dc_status dc\<rparr> else x) else x)
        (containers db)"
    by (simp add: db1'_def map_upd_none cong: if_cong)
  show ?thesis
  proof (cases "falsy_str (c_docker_id c) \<and> dc_dockerId dc \<noteq> []")
    case False
    then have "sync_one dcs c db = (Inr (c1, 1, if c_status c \<noteq> dc_status dc then 1 else 0), db1')"
      using Some ex by (auto simp: sync_one_def updateStatus_exists c1_def db1'_def)
    with s have "c' = c1" "db1 = db1'" by simp_all
    moreover have "\<And>x. row_update dcs c x =
        (if c_status c \<noteq> dc_status dc then x\<lparr>c_status := dc_status dc\<rparr> else x)"
      using False Some by (auto simp: row_update_def Let_def)
    ultimately show ?thesis using rows1 by (simp add: c1_def cong: if_cong)
  next
    case True
    then have e: "sync_one dcs c db =
        (case updateDockerId c1 (dc_dockerId dc) db1' of
           (Inl e, db2) \<Rightarrow> (Inl e, db2)
         | (Inr c2, db2) \<Rightarrow>
             (Inr (c2, 1, (if c_status c \<noteq> dc_status dc then 1 else 0) + 1), db2))"
      using Some ex by (auto simp: sync_one_def updateStatus_exists c1_def db1'_def
          split: prod.splits sum.splits)
    with s obtain c2 where u: "updateDockerId c1 (dc_dockerId dc) db1' = (Inr c2, db1)" "c' = c2"
      by (auto split: prod.splits sum.splits)
    from updateDockerId_Inr [OF _ u(1)] ex1 c1
    have "c2 = c1\<lparr>c_docker_id := Some (dc_dockerId dc)\<rparr>"
      and "db1 = db1'\<lparr>containers :=
            map (\<lambda>x. if c_id x = c_id c then x\<lparr>c_docker_id := Some (dc_dockerId dc)\<rparr> else x)
              (containers db1')\<rparr>"
      by simp_all
    moreover have "\<And>x. row_update dcs c x =
        (if c_status c \<noteq> dc_status dc then x\<lparr>c_status := dc_status dc\<rparr> else x)
          \<lparr>c_docker_id := Some (dc_dockerId dc)\<rparr>"
      using True Some by (auto simp: row_update_def Let_def)
    ultimately show ?thesis using rows1 u(2) by (simp add: c1_def map_upd_twice cong: if_cong)
  qed
qed

lemma find_first:
  assumes "find P xs = Some x" and "\<And>y. y \<in> set xs \<Longrightarrow> Q y \<Longrightarrow> P y \<or> y = x" and "Q x"
  shows "find Q xs = Some x"
  using assms
proof (induction xs)
  case Nil
  then show ?case by simp
next
  case (Cons a xs)
  show ?case
  proof (cases "P a")
    case True
    with Cons.prems(1) have "a = x" by simp
    with Cons.prems(3) show ?thesis by simp
  next
    case False
    with Cons.prems(1) have f: "find P xs = Some x" by simp
    then have "x \<in> set xs" by (auto simp: find_Some_iff)
    show ?thesis
    proof (cases "Q a")
      case True
      with Cons.prems(2) [of a] False have "a = x" by simp
      with Cons.prems(3) show ?thesis by simp
    next
      case q: False
      have "find Q xs = Some x"
        using f Cons.prems(2,3) by (intro Cons.IH) auto
      with q show ?thesis by simp
    qed
  qed
qed

lemma find_docker_spec:
  assumes "spec_match dcs r = Some dc" and "keys_agree dcs r"
  shows "find_docker dcs r = Some dc"
proof (cases "find (\<lambda>dc. Some (dc_dockerId dc) = c_docker_id r) dcs")
  case None
  then have n: "\<And>y. y \<in> set dcs \<Longrightarrow> Some (dc_dockerId y) \<noteq> c_docker_id r"
    by (auto simp: find_None_iff)
  from None assms(1) have f: "find (\<lambda>dc. dc_name dc = c_name r) dcs = Some dc"
    by (simp add: spec_match_def)
  then have "dc_name dc = c_name r" by (auto simp: find_Some_iff)
  with f n show ?thesis
    unfolding find_docker_def by (intro find_first [OF f]) auto
next
  case (Some a)
  with assms(1) have "a = dc" by (simp add: spec_match_def)
  with Some have f: "find (\<lambda>dc. Some (dc_dockerId dc) = c_docker_id r) dcs = Some dc" by simp
  then have m: "Some (dc_dockerId dc) = c_docker_id r" "dc \<in> set dcs"
    by (auto simp: find_Some_iff)
  have "\<And>y. y \<in> set dcs \<Longrightarrow> dc_name y = c_name r \<Longrightarrow> y = dc"
    using assms(2) m by (auto simp: keys_agree_def)
  with m show ?thesis
    unfolding find_docker_def by (intro find_first [OF f]) auto
qed

lemma find_unique:
  assumes "x \<in> set xs" "P x" "\<And>y. y \<in> set xs \<Longrightarrow> P y \<Longrightarrow> y = x"
  shows "find P xs = Some x"
proof (cases "find P xs")
  case None
  with assms(1,2) show ?thesis by (auto simp: find_None_iff)
next
  case (Some y)
  then have "y \<in> set xs" "P y" by (auto simp: find_Some_iff)
  with assms(3) have "y = x" by blast
  with Some show ?thesis by simp
qed

lemma same_key_same_object:
  "distinct (map f xs) \<Longrightarrow> x \<in> set xs \<Longrightarrow> y \<in> set xs \<Longrightarrow> f x = f y \<Longrightarrow> x = y"
  by (meson distinct_map inj_onD)

lemma find_docker_mem: "find_docker dcs r = Some dc \<Longrightarrow> dc \<in> set dcs"
  by (auto simp: find_docker_def find_Some_iff)

lemma find_docker_cong:
  "c_docker_id a = c_docker_id b \<Longrightarrow> c_name a = c_name b \<Longrightarrow> find_docker dcs a = find_docker dcs b"
  by (simp add: find_docker_def)

text \<open>After a backfill the record still finds the same engine object.\<close>

lemma find_docker_backfill:
  assumes f: "find_docker dcs r = Some dc" and fa: "falsy_str (c_docker_id r)"
    and ne: "dc_dockerId dc \<noteq> []" and d: "distinct (map dc_dockerId dcs)"
    and r': "c_docker_id r' = Some (dc_dockerId dc)" "c_name r' = c_name r"
  shows "find_docker dcs r' = Some dc"
proof -
  have mem: "dc \<in> set dcs" using f by (rule find_docker_mem)
  have nm: "dc_name dc = c_name r"
    using f fa ne by (auto simp: find_docker_def find_Some_iff falsy_str_def split: option.splits)
  have "find (\<lambda>x. Some (dc_dockerId x) = Some (dc_dockerId dc) \<or> dc_name x = c_name r) dcs = Some dc"
  proof (rule find_first [OF f [unfolded find_docker_def]])
    fix y assume y: "y \<in> set dcs"
      and "Some (dc_dockerId y) = Some (dc_dockerId dc) \<or> dc_name y = c_name r"
    then show "(Some (dc_dockerId y) = c_docker_id r \<or> dc_name y = c_name r) \<or> y = dc"
      using same_key_same_object [OF d y mem] by auto
  next
    show "Some (dc_dockerId dc) = Some (dc_dockerId dc) \<or> dc_name dc = c_name r" by simp
  qed
  then show ?thesis by (simp add: find_docker_def r')
qed

lemma find_docker_status [simp]: "find_docker dcs (r\<lparr>c_status := st\<rparr>) = find_docker dcs r"
  by (simp add: find_docker_def)

lemma status_new_Container:
  "c_status (new_Container r) = (if c_status r = [] then ''stopped'' else c_status r)"
  by (simp add: new_Container_def)

lemma sync_row_None:
  assumes "find_docker dcs r = None"
  shows "c_docker_id (sync_row dcs r) = c_docker_id r"
    and "c_status (new_Container (sync_row dcs r)) = ''stopped''"
  using assms by (simp_all add: sync_row_def row_update_def status_new_Container)

lemma sync_row_Some_status:
  assumes "find_docker dcs r = Some dc" "dc_status dc \<noteq> []"
  shows "c_status (new_Container (sync_row dcs r)) = dc_status dc"
  using assms by (simp add: sync_row_def row_update_def status_new_Container Let_def)

lemma sync_row_Some_backfill:
  assumes "find_docker dcs r = Some dc" "falsy_str (c_docker_id r) \<and> dc_dockerId dc \<noteq> []"
  shows "c_docker_id (sync_row dcs r) = Some (dc_dockerId dc)"
  using assms by (simp add: sync_row_def row_update_def Let_def)

lemma sync_row_Some_keep:
  assumes "find_docker dcs r = Some dc" "\<not> (falsy_str (c_docker_id r) \<and> dc_dockerId dc \<noteq> [])"
  shows "c_docker_id (sync_row dcs r) = c_docker_id r"
  using assms by (auto simp: sync_row_def row_update_def Let_def)

lemma settled_sync_row:
  assumes d: "distinct (map dc_dockerId dcs)" and st: "\<forall>dc\<in>set dcs. dc_status dc \<noteq> []"
  shows "settled dcs (new_Container (sync_row dcs r))"
proof (cases "find_docker dcs r")
  case None
  have "find_docker dcs (new_Container (sync_row dcs r)) = find_docker dcs r"
    by (rule find_docker_cong) (simp_all add: sync_row_None(1) [OF None])
  with None sync_row_None(2) [OF None] show ?thesis
    by (simp add: settled_def)
next
  case (Some dc)
  then have "dc \<in> set dcs" by (rule find_docker_mem)
  with st have ne: "dc_status dc \<noteq> []" by blast
  note s = sync_row_Some_status [OF Some ne]
  show ?thesis
  proof (cases "falsy_str (c_docker_id r) \<and> dc_dockerId dc \<noteq> []")
    case False
    note i = sync_row_Some_keep [OF Some False]
    have "find_docker dcs (new_Container (sync_row dcs r)) = find_docker dcs r"
      by (rule find_docker_cong) (simp_all add: i)
    with Some s i False show ?thesis
      by (simp add: settled_def)
  next
    case True
    note i = sync_row_Some_backfill [OF Some True]
    have "find_docker dcs (new_Container (sync_row dcs r)) = Some dc"
      using True by (intro find_docker_backfill [OF Some _ _ d]) (simp_all add: i)
    with s i show ?thesis
      by (simp add: settled_def falsy_str_def)
  qed
qed

lemma find_docker_imported:
  assumes "dc \<in> set dcs" "distinct (map dc_dockerId dcs)" "distinct (map dc_name dcs)"
  shows "find_docker dcs (imported_row i dc) = Some dc"
  unfolding find_docker_def
proof (rule find_unique [OF assms(1)])
  show "Some (dc_dockerId dc) = c_docker_id (imported_row i dc) \<or>
        dc_name dc = c_name (imported_row i dc)"
    by (simp add: imported_row_def)
next
  fix y assume "y \<in> set dcs"
    and "Some (dc_dockerId y) = c_docker_id (imported_row i dc) \<or>
         dc_name y = c_name (imported_row i dc)"
  then show "y = dc"
    using same_key_same_object [OF assms(2) _ assms(1), of y]
      same_key_same_object [OF assms(3) _ assms(1), of y]
    by (auto simp: imported_row_def)
qed

lemma settled_imported:
  assumes "dc \<in> set dcs" "distinct (map dc_dockerId dcs)" "distinct (map dc_name dcs)"
    and "\<forall>dc\<in>set dcs. dc_status dc \<noteq> []"
  shows "settled dcs (new_Container (imported_row i dc))"
proof -
  have f: "find_docker dcs (new_Container (imported_row i dc)) = Some dc"
    using assms(1-3) by (simp add: find_docker_imported)
  have ne: "dc_status dc \<noteq> []" using assms(1,4) by blast
  have s: "c_status (new_Container (imported_row i dc)) = dc_status dc"
    using ne by (simp add: status_new_Container imported_row_def)
  have i: "c_docker_id (imported_row i dc) = Some (dc_dockerId dc)"
    by (simp add: imported_row_def)
  show ?thesis
    unfolding settled_def f by (simp add: s i falsy_str_def)
qed

lemma sync_one_settled:
  "settled dcs c \<Longrightarrow>
   sync_one dcs c db = (Inr (c, if find_docker dcs c = None then 0 else 1, 0), db)"
  by (cases "find_docker dcs c") (auto simp: settled_def sync_one_def)

lemma sync_existing_settled:
  "\<forall>c\<in>set cs. settled dcs c \<Longrightarrow>
   sync_existing dcs cs db
     = (Inr (cs, length (filter (\<lambda>c. find_docker dcs c \<noteq> None) cs), 0), db)"
proof (induction cs)
  case Nil
  then show ?case by simp
next
  case (Cons c cs)
  then have "sync_existing dcs cs db
     = (Inr (cs, length (filter (\<lambda>c. find_docker dcs c \<noteq> None) cs), 0), db)" by simp
  with Cons.prems show ?case by (simp add: sync_one_settled)
qed

lemma auto_import_known:
  "\<forall>dc\<in>set ds. known cs dc \<Longrightarrow> auto_import ids cs ds db k = (0, db)"
  by (induction ds) (auto simp: known_def)

lemma row_update_object:
  "c_docker_id (row_update dcs (new_Container r) (new_Container r)) = c_docker_id (sync_row dcs r)"
  by (simp add: sync_row_def row_update_def Let_def split: option.splits)

lemma sync_existing_effect:
  assumes "distinct (map c_id (containers db))" and "set rs \<subseteq> set (containers db)"
    and "distinct (map c_id rs)"
    and "sync_existing dcs (map new_Container rs) db = (Inr (cs', sy, up), db1)"
  shows "containers db1
           = map (\<lambda>x. if c_id x \<in> c_id ` set rs then sync_row dcs x else x) (containers db)
       \<and> map (\<lambda>c. (c_docker_id c, c_name c)) cs'
           = map (\<lambda>r. (c_docker_id (sync_row dcs r), c_name r)) rs"
  using assms
proof (induction rs arbitrary: db cs' sy up db1)
  case Nil
  then show ?case by (simp add: map_upd_none cong: if_cong)
next
  case (Cons r rs)
  from Cons.prems(4) obtain c1 sy1 up1 dbm cs2 sy2 up2 where
    one: "sync_one dcs (new_Container r) db = (Inr (c1, sy1, up1), dbm)"
    and rest: "sync_existing dcs (map new_Container rs) dbm = (Inr (cs2, sy2, up2), db1)"
    and cs': "cs' = c1 # cs2"
    by (auto split: prod.splits sum.splits)
  have rin: "r \<in> set (containers db)" using Cons.prems(2) by simp
  then have ex: "row_exists db (c_id (new_Container r))" by (auto simp: row_exists_ids)
  from sync_one_effect [OF ex one]
  have m0: "containers dbm = map (\<lambda>x. if c_id x = c_id r then row_update dcs (new_Container r) x
        else x) (containers db)"
    and c1: "c1 = row_update dcs (new_Container r) (new_Container r)"
    by simp_all
  have m: "containers dbm = map (\<lambda>x. if c_id x = c_id r then sync_row dcs x else x) (containers db)"
    unfolding m0
  proof (rule map_cong [OF refl])
    fix x assume "x \<in> set (containers db)"
    then have "c_id x = c_id r \<Longrightarrow> x = r"
      using same_id_same_row [OF Cons.prems(1) _ rin] by blast
    then show "(if c_id x = c_id r then row_update dcs (new_Container r) x else x)
        = (if c_id x = c_id r then sync_row dcs x else x)"
      by (auto simp: sync_row_def)
  qed
  have "map c_id (containers dbm) = map c_id (containers db)"
    unfolding m by (rule map_id_upd) simp
  then have dm: "distinct (map c_id (containers dbm))"
    using Cons.prems(1) by simp
  have nr: "c_id r \<notin> c_id ` set rs" using Cons.prems(3) by auto
  have sub: "set rs \<subseteq> set (containers dbm)"
  proof
    fix x assume x: "x \<in> set rs"
    with nr have "c_id x \<noteq> c_id r" by (metis imageI)
    moreover from x Cons.prems(2) have "x \<in> set (containers db)" by auto
    ultimately show "x \<in> set (containers dbm)"
      unfolding m by (auto simp: image_iff intro!: bexI [of _ x])
  qed
  have drs: "distinct (map c_id rs)" using Cons.prems(3) by simp
  from Cons.IH [OF dm sub drs rest]
  have ih: "containers db1
           = map (\<lambda>x. if c_id x \<in> c_id ` set rs then sync_row dcs x else x) (containers dbm)"
    "map (\<lambda>c. (c_docker_id c, c_name c)) cs2
           = map (\<lambda>r. (c_docker_id (sync_row dcs r), c_name r)) rs"
    by simp_all
  have "containers db1
      = map (\<lambda>x. if c_id x \<in> c_id ` set (r # rs) then sync_row dcs x else x) (containers db)"
    unfolding ih(1) m map_map
  proof (rule map_cong [OF refl])
    fix x assume "x \<in> set (containers db)"
    show "((\<lambda>x. if c_id x \<in> c_id ` set rs then sync_row dcs x else x) \<circ>
           (\<lambda>x. if c_id x = c_id r then sync_row dcs x else x)) x
        = (if c_id x \<in> c_id ` set (r # rs) then sync_row dcs x else x)"
      using nr by auto
  qed
  with ih(2) cs' c1 show ?case
    by (simp add: row_update_object)
qed

lemma map_upd_fresh:
  "i \<notin> set (map c_id rows) \<Longrightarrow> map (\<lambda>x. if c_id x = i then f x else x) rows = rows"
  by (induction rows) auto

lemma import_one_ok:
  assumes fresh: "newId \<notin> set (map c_id (containers db))"
    and free: "\<forall>x\<in>set (containers db). c_docker_id x \<noteq> Some (dc_dockerId dc)"
  shows "\<exists>db'. import_one newId dc db = (True, db')
      \<and> containers db' = imported_row newId dc # containers db"
proof -
  define row where "row = \<lparr>c_id = newId, c_name = dc_name dc, c_docker_id = None,
      c_image = dc_image dc, c_status = ''created'',
      c_folder_path = ''/home/containers/'' @ dc_name dc, c_startup_script = None,
      c_created_by = 1\<rparr>"
  define db1 where "db1 = db\<lparr>containers := row # containers db\<rparr>"
  have rid: "c_id row = newId" by (simp add: row_def)
  have nex: "\<not> row_exists db newId" using fresh by (simp only: row_exists_ids) simp
  have cr: "create_Container newId (dc_name dc) (dc_image dc)
        (''/home/containers/'' @ dc_name dc) 1 db = (Inr (new_Container row), db1)"
    using nex by (simp add: create_Container_def row_def db1_def Let_def)
  have ex1: "row_exists db1 (c_id (new_Container row))"
    by (simp add: row_exists_def db1_def row_def)
  have nodup: "\<not> list_ex (\<lambda>r. c_id r \<noteq> c_id (new_Container row) \<and>
        c_docker_id r = Some (dc_dockerId dc)) (containers db1)"
    using free by (auto simp: list_ex_iff db1_def row_def)
  define db2 where "db2 = db\<lparr>containers := row\<lparr>c_docker_id := Some (dc_dockerId dc)\<rparr> # containers db\<rparr>"
  have ud: "updateDockerId (new_Container row) (dc_dockerId dc) db1
      = (Inr ((new_Container row)\<lparr>c_docker_id := Some (dc_dockerId dc)\<rparr>), db2)"
    using ex1 nodup fresh
    by (simp add: updateDockerId_def db1_def db2_def map_upd_fresh rid)
  have ex2: "row_exists db2 (c_id (new_Container row))"
    by (simp add: row_exists_def db2_def row_def)
  have us: "snd (updateStatus ((new_Container row)\<lparr>c_docker_id := Some (dc_dockerId dc)\<rparr>)
        (dc_status dc) db2)
      = db\<lparr>containers := imported_row newId dc # containers db\<rparr>"
    using fresh
    by (simp add: updateStatus_def db2_def map_upd_fresh rid) (simp add: row_def imported_row_def)
  show ?thesis
    unfolding import_one_def cr
    using us by (simp add: ud case_prod_beta addLog_def)
qed

lemma auto_import_effect:
  assumes "inj ids" and "\<forall>j\<ge>k. ids j \<notin> set (map c_id (containers db))"
    and "distinct (map dc_dockerId ds)"
    and "\<forall>dc\<in>set ds. \<not> known cs dc \<longrightarrow>
           (\<forall>x\<in>set (containers db). c_docker_id x \<noteq> Some (dc_dockerId dc))"
  shows "\<exists>db2. auto_import ids cs ds db k = (length (filter (\<lambda>dc. \<not> known cs dc) ds), db2)
      \<and> containers db2 = imported_rows ids k (filter (\<lambda>dc. \<not> known cs dc) ds) @ containers db"
  using assms(2-4)
proof (induction ds arbitrary: db k)
  case Nil
  then show ?case by simp
next
  case (Cons dc ds)
  show ?case
  proof (cases "known cs dc")
    case True
    have "\<exists>db2. auto_import ids cs ds db k = (length (filter (\<lambda>dc. \<not> known cs dc) ds), db2)
      \<and> containers db2 = imported_rows ids k (filter (\<lambda>dc. \<not> known cs dc) ds) @ containers db"
      using Cons.prems by (intro Cons.IH) auto
    with True show ?thesis by (auto simp: known_def)
  next
    case False
    have fresh: "ids k \<notin> set (map c_id (containers db))" using Cons.prems(1) by blast
    have free: "\<forall>x\<in>set (containers db). c_docker_id x \<noteq> Some (dc_dockerId dc)"
      using Cons.prems(3) False by simp
    from import_one_ok [OF fresh free]
    obtain db1 where i: "import_one (ids k) dc db = (True, db1)"
      and r1: "containers db1 = imported_row (ids k) dc # containers db"
      by blast
    have a: "\<forall>j\<ge>Suc k. ids j \<notin> set (map c_id (containers db1))"
    proof (intro allI impI)
      fix j assume j: "Suc k \<le> j"
      then have "ids j \<noteq> ids k" using assms(1) by (auto dest: injD)
      moreover have "ids j \<notin> set (map c_id (containers db))" using Cons.prems(1) j by simp
      ultimately show "ids j \<notin> set (map c_id (containers db1))"
        by (simp add: r1 imported_row_def)
    qed
    have b: "distinct (map dc_dockerId ds)" using Cons.prems(2) by simp
    have c: "\<forall>dc'\<in>set ds. \<not> known cs dc' \<longrightarrow>
           (\<forall>x\<in>set (containers db1). c_docker_id x \<noteq> Some (dc_dockerId dc'))"
    proof (intro ballI impI)
      fix dc' x assume d: "dc' \<in> set ds" and n: "\<not> known cs dc'" and x: "x \<in> set (containers db1)"
      from Cons.prems(2) have "dc_dockerId dc \<notin> dc_dockerId ` set ds" by simp
      with d have "dc_dockerId dc' \<noteq> dc_dockerId dc" by (metis imageI)
      moreover from d n Cons.prems(3)
      have "\<forall>x\<in>set (containers db). c_docker_id x \<noteq> Some (dc_dockerId dc')" by simp
      ultimately show "c_docker_id x \<noteq> Some (dc_dockerId dc')"
        using x by (auto simp: r1 imported_row_def)
    qed
    from Cons.IH [OF a b c]
    obtain db2 where "auto_import ids cs ds db1 (Suc k)
        = (length (filter (\<lambda>dc. \<not> known cs dc) ds), db2)"
      and "containers db2 = imported_rows ids (Suc k) (filter (\<lambda>dc. \<not> known cs dc) ds)
          @ containers db1"
      by blast
    with False i r1 show ?thesis by (auto simp: known_def)
  qed
qed

lemma imported_rows_mem:
  "x \<in> set (imported_rows ids k ds) \<Longrightarrow> \<exists>j dc. x = imported_row (ids j) dc \<and> dc \<in> set ds"
proof (induction ds arbitrary: k)
  case Nil
  then show ?case by simp
next
  case (Cons a ds)
  from Cons.prems have "x \<in> set (imported_rows ids (Suc k) ds) \<or> x = imported_row (ids k) a"
    by auto
  then show ?case
  proof
    assume "x \<in> set (imported_rows ids (Suc k) ds)"
    from Cons.IH [OF this] show ?thesis by auto
  next
    assume "x = imported_row (ids k) a"
    then show ?thesis by auto
  qed
qed

lemma imported_rows_has:
  "dc \<in> set ds \<Longrightarrow> \<exists>j. imported_row (ids j) dc \<in> set (imported_rows ids k ds)"
  by (induction ds arbitrary: k) auto

lemma imported_rows_length [simp]: "length (imported_rows ids k ds) = length ds"
  by (induction ds arbitrary: k) auto

lemma map_eq_mem:
  assumes "map f xs = map g ys" "y \<in> set ys"
  shows "\<exists>x\<in>set xs. f x = g y"
proof -
  have "g y \<in> set (map g ys)" using assms(2) by simp
  then have "g y \<in> set (map f xs)" by (simp only: assms(1))
  then show ?thesis by auto
qed

lemma find_append_None:
  "\<forall>x\<in>set xs. \<not> P x \<Longrightarrow> find P (xs @ ys) = find P ys"
  by (induction xs) auto

text \<open>The table of containers after a first tick that completes.\<close>

lemma first_sync_rows:
  assumes eng: "e_listContainers eng = Inr dcs"
    and did: "distinct (map dc_dockerId dcs)"
    and rid: "distinct (map c_id (containers db))"
    and len: "length (containers db) \<le> 1000"
    and inj: "inj ids" and fresh: "\<forall>j. ids j \<notin> set (map c_id (containers db))"
    and first: "syncContainers ids eng db = (Inr res, db')"
  shows "\<exists>objs. containers db' = imported_rows ids 0 (filter (\<lambda>dc. \<not> known objs dc) dcs)
                       @ map (sync_row dcs) (containers db)
      \<and> map (\<lambda>c. (c_docker_id c, c_name c)) objs
           = map (\<lambda>r. (c_docker_id (sync_row dcs r), c_name r)) (containers db)"
proof -
  have l: "list_containers 1000 None db = map new_Container (containers db)"
    using len by (simp add: list_containers_def)
  obtain r1 db1 where se: "sync_existing dcs (map new_Container (containers db)) db = (r1, db1)"
    by (cases "sync_existing dcs (map new_Container (containers db)) db")
  have "\<exists>objs sy up. r1 = Inr (objs, sy, up)"
  proof (cases r1)
    case (Inl e)
    with first eng l se show ?thesis by (simp add: syncContainers_def)
  next
    case (Inr t)
    then show ?thesis by (cases t) auto
  qed
  then obtain objs sy up where r1: "r1 = Inr (objs, sy, up)" by blast
  have one: "sync_existing dcs (map new_Container (containers db)) db = (Inr (objs, sy, up), db1)"
    using se r1 by simp
  have two: "snd (auto_import ids objs dcs db1 0) = db'"
    using first eng l one by (simp add: syncContainers_def case_prod_beta)
  from sync_existing_effect [OF rid subset_refl rid one]
  have r0: "containers db1 = map (\<lambda>x. if c_id x \<in> c_id ` set (containers db)
          then sync_row dcs x else x) (containers db)"
    and objs: "map (\<lambda>c. (c_docker_id c, c_name c)) objs
           = map (\<lambda>r. (c_docker_id (sync_row dcs r), c_name r)) (containers db)"
    by simp_all
  have r1: "containers db1 = map (sync_row dcs) (containers db)"
    unfolding r0 by (rule map_cong) auto
  have ids1: "map c_id (containers db1) = map c_id (containers db)"
    by (simp add: r1 comp_def)
  have a: "\<forall>j\<ge>0. ids j \<notin> set (map c_id (containers db1))"
    using fresh by (simp only: ids1) simp
  have dobjs: "map c_docker_id objs = map c_docker_id (containers db1)"
  proof -
    have "map c_docker_id objs = map fst (map (\<lambda>c. (c_docker_id c, c_name c)) objs)"
      by (simp add: comp_def)
    also have "\<dots> = map c_docker_id (containers db1)"
      by (simp only: objs) (simp add: r1 comp_def)
    finally show ?thesis .
  qed
  have c: "\<forall>dc\<in>set dcs. \<not> known objs dc \<longrightarrow>
           (\<forall>x\<in>set (containers db1). c_docker_id x \<noteq> Some (dc_dockerId dc))"
  proof (intro ballI impI)
    fix dc x assume "dc \<in> set dcs" and n: "\<not> known objs dc" and x: "x \<in> set (containers db1)"
    from n have "\<forall>c\<in>set objs. c_docker_id c \<noteq> Some (dc_dockerId dc)"
      by (auto simp: known_def find_None_iff)
    moreover from map_eq_mem [OF dobjs x]
    obtain c where "c \<in> set objs" "c_docker_id c = c_docker_id x" by blast
    ultimately show "c_docker_id x \<noteq> Some (dc_dockerId dc)" by metis
  qed
  from auto_import_effect [OF inj a did c]
  obtain db2 where "auto_import ids objs dcs db1 0
        = (length (filter (\<lambda>dc. \<not> known objs dc) dcs), db2)"
    and "containers db2 = imported_rows ids 0 (filter (\<lambda>dc. \<not> known objs dc) dcs) @ containers db1"
    by blast
  with two r1 objs show ?thesis by auto
qed

lemma second_sync_noop:
  assumes eng: "e_listContainers eng = Inr dcs"
    and did: "distinct (map dc_dockerId dcs)" and dname: "distinct (map dc_name dcs)"
    and st: "\<forall>dc\<in>set dcs. dc_status dc \<noteq> []"
    and len: "length (containers db) + length dcs \<le> 1000"
    and rows: "containers db' = imported_rows ids 0 (filter (\<lambda>dc. \<not> known objs dc) dcs)
                       @ map (sync_row dcs) (containers db)"
    and objs: "map (\<lambda>c. (c_docker_id c, c_name c)) objs
           = map (\<lambda>r. (c_docker_id (sync_row dcs r), c_name r)) (containers db)"
  shows "\<exists>res2. syncContainers ids2 eng db' = (Inr res2, db') \<and> updated res2 = 0 \<and> created res2 = 0"
proof -
  let ?new = "filter (\<lambda>dc. \<not> known objs dc) dcs"
  have "length (containers db') \<le> length dcs + length (containers db)"
    by (simp add: rows)
  with len have l: "list_containers 1000 None db' = map new_Container (containers db')"
    by (simp add: list_containers_def)
  have settled: "\<forall>c\<in>set (map new_Container (containers db')). settled dcs c"
  proof
    fix c assume "c \<in> set (map new_Container (containers db'))"
    then obtain x where x: "x \<in> set (containers db')" and c: "c = new_Container x" by auto
    from x rows have "x \<in> set (imported_rows ids 0 ?new) \<or> x \<in> set (map (sync_row dcs) (containers db))"
      by auto
    then show "settled dcs c"
    proof
      assume "x \<in> set (imported_rows ids 0 ?new)"
      from imported_rows_mem [OF this] obtain j dc where "x = imported_row (ids j) dc" "dc \<in> set dcs"
        by auto
      with c show ?thesis by (simp add: settled_imported [OF _ did dname st])
    next
      assume "x \<in> set (map (sync_row dcs) (containers db))"
      then obtain r where "x = sync_row dcs r" by auto
      with c show ?thesis by (simp add: settled_sync_row [OF did st])
    qed
  qed
  from sync_existing_settled [OF settled, of db']
  obtain sy where one: "sync_existing dcs (map new_Container (containers db')) db'
      = (Inr (map new_Container (containers db'), sy, 0), db')"
    by blast
  have known: "\<forall>dc\<in>set dcs. known (map new_Container (containers db')) dc"
  proof
    fix dc assume dc: "dc \<in> set dcs"
    show "known (map new_Container (containers db')) dc"
    proof (cases "known objs dc")
      case False
      with dc have "dc \<in> set ?new" by simp
      from imported_rows_has [OF this, of ids 0]
      obtain j where "imported_row (ids j) dc \<in> set (containers db')" by (auto simp: rows)
      then have "new_Container (imported_row (ids j) dc) \<in> set (map new_Container (containers db'))"
        by simp
      moreover have "c_docker_id (new_Container (imported_row (ids j) dc)) = Some (dc_dockerId dc)"
        by (simp add: imported_row_def)
      ultimately show ?thesis
        unfolding known_def find_None_iff by blast
    next
      case True
      show ?thesis
      proof (cases "map_of (dc_labels dc) ''nexus-crate-flow'' = Some ''true''")
        case False
        then show ?thesis by (simp add: known_def)
      next
        case lab: True
        with True obtain c where c: "c \<in> set objs"
          "c_docker_id c = Some (dc_dockerId dc) \<or> c_name c = dc_name dc"
          by (auto simp: known_def find_None_iff)
        from map_eq_mem [OF objs [symmetric] c(1)]
        obtain r where r: "r \<in> set (containers db)"
          "(c_docker_id (sync_row dcs r), c_name r) = (c_docker_id c, c_name c)"
          by blast
        then have "new_Container (sync_row dcs r) \<in> set (map new_Container (containers db'))"
          by (simp add: rows)
        moreover have "c_docker_id (new_Container (sync_row dcs r)) = Some (dc_dockerId dc)
            \<or> c_name (new_Container (sync_row dcs r)) = dc_name dc"
          using r(2) c(2) by auto
        ultimately show ?thesis
          unfolding known_def find_None_iff by blast
      qed
    qed
  qed
  from auto_import_known [OF known]
  have two: "auto_import ids2 (map new_Container (containers db')) dcs db' 0 = (0, db')" .
  show ?thesis
    by (simp add: syncContainers_def eng l one two)
qed

lemma first_sync_status:
  assumes rid: "distinct (map c_id (containers db))"
    and fresh: "\<forall>j. ids j \<notin> set (map c_id (containers db))"
    and rows: "containers db' = imported_rows ids 0 new @ map (sync_row dcs) (containers db)"
    and r: "r \<in> set (containers db)"
  shows "findById db' (c_id r) = Some (new_Container (sync_row dcs r))"
proof -
  have "\<forall>x\<in>set (imported_rows ids 0 new). \<not> c_id x = c_id r"
  proof
    fix x assume "x \<in> set (imported_rows ids 0 new)"
    from imported_rows_mem [OF this] obtain j dc where "x = imported_row (ids j) dc" by auto
    then have "c_id x = ids j" by (simp add: imported_row_def)
    moreover have "c_id r \<in> set (map c_id (containers db))" using r by simp
    ultimately show "\<not> c_id x = c_id r" using fresh by metis
  qed
  then have "find (\<lambda>x. c_id x = c_id r) (containers db')
      = find (\<lambda>x. c_id x = c_id r) (map (sync_row dcs) (containers db))"
    unfolding rows by (rule find_append_None)
  also have "\<dots> = Some (sync_row dcs r)"
  proof (rule find_unique)
    show "sync_row dcs r \<in> set (map (sync_row dcs) (containers db))" using r by simp
    show "c_id (sync_row dcs r) = c_id r" by simp
    fix y assume "y \<in> set (map (sync_row dcs) (containers db))" and i: "c_id y = c_id r"
    then obtain r' where r': "r' \<in> set (containers db)" "y = sync_row dcs r'" by auto
    with i have "c_id r' = c_id r" by simp
    with same_id_same_row [OF rid r'(1) r] have "r' = r" by simp
    with r'(2) show "y = sync_row dcs r" by simp
  qed
  finally show ?thesis by (simp add: findById_def)
qed

text \<open>
  Within the listing limit Sync does what the specification says. Take an engine whose
  objects have distinct ids, distinct names and statuses that are not empty, a registry
  of distinct record ids that stays within the listing limit of 1000 records (counting
  the records a tick may import), fresh identifiers for new records, and a Sync tick that
  completes. Then for every registry record that has a matching engine object (by
  \<open>engineRef\<close> first, else by name) and whose two keys agree on the engine's list, the
  record's status after the tick equals the status the engine reports for that object;
  and a second Sync tick on the result, with the engine unchanged, completes, leaves the
  database as it is and reports \<open>updated = 0\<close> and \<open>created = 0\<close>.
\<close>

theorem sync_idempotent:
  assumes eng: "e_listContainers eng = Inr dcs"
    and did: "distinct (map dc_dockerId dcs)" and dname: "distinct (map dc_name dcs)"
    and st: "\<forall>dc\<in>set dcs. dc_status dc \<noteq> []"
    and rid: "distinct (map c_id (containers db))"
    and len: "length (containers db) + length dcs \<le> 1000"
    and inj: "inj ids" and fresh: "\<forall>j. ids j \<notin> set (map c_id (containers db))"
    and first: "syncContainers ids eng db = (Inr res, db')"
  shows "(\<forall>r\<in>set (containers db). \<forall>dc. spec_match dcs r = Some dc \<and> keys_agree dcs r \<longrightarrow>
            map_option c_status (findById db' (c_id r)) = Some (dc_status dc))
       \<and> (\<exists>res2. syncContainers ids2 eng db' = (Inr res2, db')
            \<and> updated res2 = 0 \<and> created res2 = 0)"
proof -
  from len have len': "length (containers db) \<le> 1000" by simp
  from first_sync_rows [OF eng did rid len' inj fresh first]
  obtain objs where rows: "containers db' = imported_rows ids 0 (filter (\<lambda>dc. \<not> known objs dc) dcs)
                       @ map (sync_row dcs) (containers db)"
    and objs: "map (\<lambda>c. (c_docker_id c, c_name c)) objs
           = map (\<lambda>r. (c_docker_id (sync_row dcs r), c_name r)) (containers db)"
    by blast
  have a: "\<forall>r\<in>set (containers db). \<forall>dc. spec_match dcs r = Some dc \<and> keys_agree dcs r \<longrightarrow>
            map_option c_status (findById db' (c_id r)) = Some (dc_status dc)"
  proof (intro ballI allI impI)
    fix r dc assume r: "r \<in> set (containers db)"
      and m: "spec_match dcs r = Some dc \<and> keys_agree dcs r"
    then have f: "find_docker dcs r = Some dc" by (simp add: find_docker_spec)
    then have "dc \<in> set dcs" by (rule find_docker_mem)
    with st have "dc_status dc \<noteq> []" by blast
    from sync_row_Some_status [OF f this] first_sync_status [OF rid fresh rows r]
    show "map_option c_status (findById db' (c_id r)) = Some (dc_status dc)" by simp
  qed
  from second_sync_noop [OF eng did dname st len rows objs] a show ?thesis by blast
qed

lemma ex_first_sync:
  "syncContainers ex_ids (engine_listing ex_sync_objects) ex_sync_db =
     (Inr \<lparr>synced = 1, updated = 3, created = 1, total_docker = 2, total_db = 2\<rparr>,
      \<lparr>containers =
         [\<lparr>c_id = ''n'', c_name = ''cache'', c_docker_id = Some ''e3'', c_image = ''redis'',
           c_status = ''exited'', c_folder_path = ''/home/containers/cache'',
           c_startup_script = None, c_created_by = 1\<rparr>,
          \<lparr>c_id = ''c1'', c_name = ''web'', c_docker_id = Some ''e1'', c_image = ''nginx'',
           c_status = ''running'', c_folder_path = ''/home/containers/c1'',
           c_startup_script = None, c_created_by = 1\<rparr>,
          \<lparr>c_id = ''c2'', c_name = ''db'', c_docker_id = Some ''e9'', c_image = ''postgres'',
           c_status = ''stopped'', c_folder_path = ''/home/containers/c2'',
           c_startup_script = None, c_created_by = 1\<rparr>],
       container_logs =
         [\<lparr>l_container_id = ''c2'',
            l_content = ''Container not found in Docker, marked as stopped'',
            l_type = ''warning''\<rparr>,
          \<lparr>l_container_id = ''n'', l_content = ''Container auto-imported from Docker'',
            l_type = ''info''\<rparr>],
       container_settings = []\<rparr>)"
  by (simp add: syncContainers_def engine_listing_def ex_sync_objects_def ex_sync_db_def
      list_containers_def new_Container_def sync_one_def find_docker_def updateStatus_def
      updateDockerId_def row_exists_def falsy_str_def addLog_def import_one_def
      create_Container_def ex_ids_def Let_def eval_nat_numeral)

theorem sync_idempotent_witness:
  "map_option c_status
     (findById (snd (syncContainers ex_ids (engine_listing ex_sync_objects) ex_sync_db)) ''c1'')
     = Some ''running''
   \<and> snd (syncContainers ex_ids (engine_listing ex_sync_objects)
          (snd (syncContainers ex_ids (engine_listing ex_sync_objects) ex_sync_db)))
       = snd (syncContainers ex_ids (engine_listing ex_sync_objects) ex_sync_db)
   \<and> map_option updated (projr_opt (fst (syncContainers ex_ids (engine_listing ex_sync_objects)
          (snd (syncContainers ex_ids (engine_listing ex_sync_objects) ex_sync_db))))) = Some 0
   \<and> map_option created (projr_opt (fst (syncContainers ex_ids (engine_listing ex_sync_objects)
          (snd (syncContainers ex_ids (engine_listing ex_sync_objects) ex_sync_db))))) = Some 0"
proof -
  let ?eng = "engine_listing ex_sync_objects"
  let ?db' = "snd (syncContainers ex_ids ?eng ex_sync_db)"
  let ?r = "\<lparr>c_id = ''c1'', c_name = ''web'', c_docker_id = None, c_image = ''nginx'',
          c_status = ''created'', c_folder_path = ''/home/containers/c1'',
          c_startup_script = None, c_created_by = 1\<rparr>"
  let ?dc = "\<lparr>dc_dockerId = ''e1'', dc_name = ''web'', dc_image = ''nginx'', dc_status = ''running'',
       dc_labels = []\<rparr>"
  have eng: "e_listContainers ?eng = Inr ex_sync_objects" by (simp add: engine_listing_def)
  have did: "distinct (map dc_dockerId ex_sync_objects)" by (simp add: ex_sync_objects_def)
  have dname: "distinct (map dc_name ex_sync_objects)" by (simp add: ex_sync_objects_def)
  have st: "\<forall>dc\<in>set ex_sync_objects. dc_status dc \<noteq> []" by (simp add: ex_sync_objects_def)
  have rid: "distinct (map c_id (containers ex_sync_db))" by (simp add: ex_sync_db_def)
  have len: "length (containers ex_sync_db) + length ex_sync_objects \<le> 1000"
    by (simp add: ex_sync_db_def ex_sync_objects_def)
  have inj: "inj ex_ids" by (simp add: inj_def ex_ids_def)
  have fresh: "\<forall>j. ex_ids j \<notin> set (map c_id (containers ex_sync_db))"
    by (simp add: ex_ids_def ex_sync_db_def)
  have first: "syncContainers ex_ids ?eng ex_sync_db = (Inr (projr (fst (syncContainers ex_ids ?eng ex_sync_db))), ?db')"
    by (simp add: ex_first_sync)
  have r: "?r \<in> set (containers ex_sync_db)" by (simp add: ex_sync_db_def)
  have m: "spec_match ex_sync_objects ?r = Some ?dc \<and> keys_agree ex_sync_objects ?r"
    by (simp add: spec_match_def keys_agree_def ex_sync_objects_def)
  from sync_idempotent [OF eng did dname st rid len inj fresh first, of ex_ids]
  have a: "\<forall>r\<in>set (containers ex_sync_db). \<forall>dc.
        spec_match ex_sync_objects r = Some dc \<and> keys_agree ex_sync_objects r \<longrightarrow>
        map_option c_status (findById ?db' (c_id r)) = Some (dc_status dc)"
    and b: "\<exists>res2. syncContainers ex_ids ?eng ?db' = (Inr res2, ?db')
        \<and> updated res2 = 0 \<and> created res2 = 0"
    by blast+
  from a r m have "map_option c_status (findById ?db' (c_id ?r)) = Some (dc_status ?dc)"
    by blast
  then have c: "map_option c_status (findById ?db' ''c1'') = Some ''running''" by simp
  from b obtain res2 where "syncContainers ex_ids ?eng ?db' = (Inr res2, ?db')"
    "updated res2 = 0" "created res2 = 0" by blast
  with c show ?thesis by (simp add: projr_opt_def)
qed

lemma ex_filler_length: "length ex_filler = 1000"
  by (simp add: ex_filler_def)

lemma ex_filler_mem:
  "c \<in> set ex_filler \<Longrightarrow>
   c_docker_id c = None \<and> c_status c = ''stopped'' \<and> hd (c_name c) = CHR ''f''
   \<and> hd (c_id c) = CHR ''f''"
  by (auto simp: ex_filler_def)

lemma ex_filler_settled:
  "\<forall>c\<in>set (map new_Container ex_filler). settled [ex_object_web] c"
proof
  fix c assume "c \<in> set (map new_Container ex_filler)"
  then obtain r where r: "r \<in> set ex_filler" and c: "c = new_Container r" by auto
  from ex_filler_mem [OF r] have f: "c_docker_id r = None" "c_status r = ''stopped''"
    "hd (c_name r) = CHR ''f''" by simp_all
  from f(3) have "c_name r \<noteq> ''web''" by auto
  with f(1) have "find_docker [ex_object_web] c = None"
    by (simp add: c find_docker_def ex_object_web_def)
  with f(2) show "settled [ex_object_web] c"
    by (simp add: settled_def c status_new_Container)
qed

lemma ex_filler_distinct: "distinct (map c_id ex_filler)"
proof -
  have "map c_id ex_filler = map (\<lambda>k. CHR ''f'' # replicate k CHR ''x'') [0..<1000]"
    by (simp add: ex_filler_def comp_def)
  moreover have "distinct (map (\<lambda>k. CHR ''f'' # replicate k CHR ''x'') [0..<1000])"
    by (simp add: distinct_map inj_on_def)
  ultimately show ?thesis by simp
qed

lemma ex_filler_unmatched:
  "\<forall>c\<in>set (map new_Container ex_filler). find_docker [ex_object_web] c = None"
proof
  fix c assume "c \<in> set (map new_Container ex_filler)"
  then obtain r where r: "r \<in> set ex_filler" and c: "c = new_Container r" by auto
  from ex_filler_mem [OF r] have f: "c_docker_id r = None" "hd (c_name r) = CHR ''f''" by simp_all
  from f(2) have "c_name r \<noteq> ''web''" by auto
  with f(1) show "find_docker [ex_object_web] c = None"
    by (simp add: c find_docker_def ex_object_web_def)
qed

text \<open>
  A tick that does not complete. The first loop has no \<open>try\<close> of its own: when the
  \<open>docker_id\<close> backfill of a record breaks the \<open>UNIQUE\<close> constraint of the column, the
  error ends the tick, and the records listed after it are not looked at. Here the
  record \<open>web\<close> is matched by name to the object \<open>e1\<close>, which the record \<open>api\<close>
  already refers to. The status of \<open>web\<close> is written, its backfill fails, and \<open>api\<close>,
  whose engine object is the match by \<open>engineRef\<close> and is running, stays \<open>stopped\<close>.
  The next tick fails at the same backfill.
\<close>

lemma sync_backfill_abort:
  "spec_match [ex_object_web] ex_linked_record = Some ex_object_web
   \<and> keys_agree [ex_object_web] ex_linked_record
   \<and> dc_status ex_object_web = ''running''
   \<and> syncContainers ex_ids (engine_listing [ex_object_web]) (ex_two_for_one_db ''created'')
       = (Inl (Error ''SQLITE_CONSTRAINT: UNIQUE constraint failed: containers.docker_id''),
          ex_two_for_one_db ''running'')
   \<and> syncContainers ex_ids (engine_listing [ex_object_web]) (ex_two_for_one_db ''running'')
       = (Inl (Error ''SQLITE_CONSTRAINT: UNIQUE constraint failed: containers.docker_id''),
          ex_two_for_one_db ''running'')
   \<and> map_option c_status (findById (ex_two_for_one_db ''running'') ''c1'') = Some ''stopped''"
  by (simp add: syncContainers_def engine_listing_def list_containers_def new_Container_def
      sync_one_def find_docker_def spec_match_def keys_agree_def updateStatus_def
      updateDockerId_def row_exists_def falsy_str_def findById_def ex_two_for_one_db_def
      ex_linked_record_def ex_unlinked_record_def ex_object_web_def Let_def)

text \<open>
  Claim C1 at a concrete input. Sync reads the registry with
  \<open>Container.list({ limit: 1000 })\<close>, newest first, under the comment ``Get all
  containers from database'', and its first loop runs over that page only. In a
  registry of 1001 records the oldest one, \<open>c0\<close>, is not on the page. Its engine object
  \<open>e1\<close> is the match by \<open>engineRef\<close> and by name and is running; the tick completes,
  writes nothing, and the record still says \<open>stopped\<close>, where the specification has
  its status equal to the status the engine reports.
\<close>

theorem sync_skips_record_beyond_limit:
  "length (containers ex_big_db) = 1001
   \<and> distinct (map c_id (containers ex_big_db))
   \<and> last (containers ex_big_db) = ex_old_record
   \<and> spec_match [ex_object_web] ex_old_record = Some ex_object_web
   \<and> dc_status ex_object_web = ''running''
   \<and> syncContainers ex_ids (engine_listing [ex_object_web]) ex_big_db
       = (Inr \<lparr>synced = 0, updated = 0, created = 0, total_docker = 1, total_db = 1000\<rparr>,
          ex_big_db)
   \<and> map_option c_status (findById ex_big_db ''c0'') = Some ''stopped''"
proof -
  have a: "length (containers ex_big_db) = 1001"
    by (simp add: ex_big_db_def ex_filler_length)
  have "\<forall>c\<in>set ex_filler. c_id c \<noteq> ''c0''"
    using ex_filler_mem by fastforce
  then have n: "\<forall>x\<in>set ex_filler. \<not> c_id x = ''c0''" by auto
  then have "''c0'' \<notin> set (map c_id ex_filler)" by auto
  then have b: "distinct (map c_id (containers ex_big_db))"
    using ex_filler_distinct by (simp add: ex_big_db_def ex_old_record_def)
  have c: "last (containers ex_big_db) = ex_old_record" by (simp add: ex_big_db_def)
  have d: "spec_match [ex_object_web] ex_old_record = Some ex_object_web"
    by (simp add: spec_match_def ex_object_web_def ex_old_record_def)
  have e: "dc_status ex_object_web = ''running''" by (simp add: ex_object_web_def)
  have l: "list_containers 1000 None ex_big_db = map new_Container ex_filler"
    by (simp add: list_containers_def ex_big_db_def ex_filler_length)
  have z: "filter (\<lambda>c. find_docker [ex_object_web] c \<noteq> None) (map new_Container ex_filler) = []"
    using ex_filler_unmatched by (simp add: filter_empty_conv)
  have one: "sync_existing [ex_object_web] (map new_Container ex_filler) ex_big_db
      = (Inr (map new_Container ex_filler, 0, 0), ex_big_db)"
    using sync_existing_settled [OF ex_filler_settled, of ex_big_db] by (simp only: z list.size)
  have "known (map new_Container ex_filler) ex_object_web"
    by (simp add: known_def ex_object_web_def)
  then have two: "auto_import ex_ids (map new_Container ex_filler) [ex_object_web] ex_big_db 0
      = (0, ex_big_db)"
    by (intro auto_import_known) simp
  have f: "syncContainers ex_ids (engine_listing [ex_object_web]) ex_big_db
       = (Inr \<lparr>synced = 0, updated = 0, created = 0, total_docker = 1, total_db = 1000\<rparr>,
          ex_big_db)"
    by (simp add: syncContainers_def engine_listing_def l one two ex_filler_length Let_def
        del: auto_import.simps)
  have "find (\<lambda>r. c_id r = ''c0'') (containers ex_big_db) = Some ex_old_record"
    unfolding ex_big_db_def using n
    by (simp add: find_append_None) (simp add: ex_old_record_def)
  then have g: "map_option c_status (findById ex_big_db ''c0'') = Some ''stopped''"
    by (simp add: findById_def status_new_Container ex_old_record_def)
  from a b c d e f g show ?thesis by blast
qed

text \<open>
  Claim C2 at a concrete input. The record \<open>web\<close> holds the \<open>engineRef\<close> \<open>e2\<close>; the
  engine lists a newer object \<open>e1\<close> that bears the name \<open>web\<close> before the object
  \<open>e2\<close> itself. The match as the specification words it is \<open>e2\<close>; the code's
  \<open>find\<close> returns the name match \<open>e1\<close>, and Sync writes \<open>e1\<close>'s status
  \<open>exited\<close> to the record while \<open>e2\<close> is running. With the two engine objects in
  the other order the \<open>engineRef\<close> match is found: the outcome depends on the order of
  the engine's list.
\<close>

theorem sync_name_shadows_engineRef:
  "c_docker_id ex_renamed_record = Some (dc_dockerId ex_object_old)
   \<and> dc_name ex_object_new = c_name ex_renamed_record
   \<and> spec_match [ex_object_new, ex_object_old] ex_renamed_record = Some ex_object_old
   \<and> find_docker [ex_object_new, ex_object_old] ex_renamed_record = Some ex_object_new
   \<and> find_docker [ex_object_old, ex_object_new] ex_renamed_record = Some ex_object_old
   \<and> dc_status ex_object_old = ''running''
   \<and> syncContainers ex_ids (engine_listing [ex_object_new, ex_object_old])
        \<lparr>containers = [ex_renamed_record], container_logs = [], container_settings = []\<rparr>
       = (Inr \<lparr>synced = 1, updated = 1, created = 0, total_docker = 2, total_db = 1\<rparr>,
          \<lparr>containers = [ex_renamed_record\<lparr>c_status := ''exited''\<rparr>], container_logs = [],
            container_settings = []\<rparr>)
   \<and> syncContainers ex_ids (engine_listing [ex_object_old, ex_object_new])
        \<lparr>containers = [ex_renamed_record], container_logs = [], container_settings = []\<rparr>
       = (Inr \<lparr>synced = 1, updated = 0, created = 0, total_docker = 2, total_db = 1\<rparr>,
          \<lparr>containers = [ex_renamed_record], container_logs = [], container_settings = []\<rparr>)"
  by (simp add: syncContainers_def engine_listing_def list_containers_def new_Container_def
      sync_one_def find_docker_def spec_match_def updateStatus_def row_exists_def falsy_str_def
      known_def ex_renamed_record_def ex_object_new_def ex_object_old_def Let_def)

end
